theory Spec2Isabelle
  imports Main
begin

section \<open>JavaScript values\<close>

text \<open>
  The player argument of the predicates in \<^verbatim>\<open>lib/validation.ts\<close> has type \<^verbatim>\<open>any\<close>: it is
  whatever JSON the datastore client returned. It is modelled as a JSON value extended with
  \<^verbatim>\<open>undefined\<close>, the value a property read produces for a missing key. Numbers are
  integers (years and ranking positions). An object is an association list; the first
  binding of a key is its value.
\<close>

datatype jv =
    JUndefined
  | JNull
  | JBool bool
  | JNum int
  | JStr string
  | JArr "jv list"
  | JObj "(string \<times> jv) list"

text \<open>
  Exceptions: a TypeError of the language, and the error that
  \<^verbatim>\<open>generateDailyCategories\<close> throws when its queries fail.
\<close>

datatype exn = TypeError | FetchFailed

text \<open>Truthiness, as \<^verbatim>\<open>!x\<close>, \<^verbatim>\<open>x || y\<close>, \<^verbatim>\<open>x && y\<close> and \<^verbatim>\<open>if (x)\<close> use it.\<close>

fun truthy :: "jv \<Rightarrow> bool" where
  "truthy JUndefined = False"
| "truthy JNull = False"
| "truthy (JBool b) = b"
| "truthy (JNum n) = (n \<noteq> 0)"
| "truthy (JStr s) = (s \<noteq> [])"
| "truthy (JArr xs) = True"
| "truthy (JObj kvs) = True"

definition js_or :: "jv \<Rightarrow> jv \<Rightarrow> jv" where
  "js_or a b = (if truthy a then a else b)"

text \<open>
  Strict equality \<^verbatim>\<open>===\<close>. Two arrays or two objects are equal only when they are the same
  reference; the operands compared in the code come from different documents, so such a
  comparison is false.
\<close>

fun strict_eq :: "jv \<Rightarrow> jv \<Rightarrow> bool" where
  "strict_eq JUndefined JUndefined = True"
| "strict_eq JNull JNull = True"
| "strict_eq (JBool a) (JBool b) = (a = b)"
| "strict_eq (JNum a) (JNum b) = (a = b)"
| "strict_eq (JStr a) (JStr b) = (a = b)"
| "strict_eq a b = False"

text \<open>
  Property read \<^verbatim>\<open>v.k\<close>: a TypeError on \<^verbatim>\<open>undefined\<close> and \<^verbatim>\<open>null\<close>, the bound value on
  an object, \<^verbatim>\<open>undefined\<close> for a missing key and on the other values (none of the keys the
  code reads is a built-in property of a string, number, boolean or array).
\<close>

fun get_prop :: "jv \<Rightarrow> string \<Rightarrow> exn + jv" where
  "get_prop JUndefined k = Inl TypeError"
| "get_prop JNull k = Inl TypeError"
| "get_prop (JObj kvs) k = Inr (case map_of kvs k of None \<Rightarrow> JUndefined | Some v \<Rightarrow> v)"
| "get_prop v k = Inr JUndefined"

text \<open>Optional chaining \<^verbatim>\<open>v?.k\<close>: \<^verbatim>\<open>undefined\<close> where \<^verbatim>\<open>v.k\<close> would throw.\<close>

definition opt_prop :: "jv \<Rightarrow> string \<Rightarrow> jv" where
  "opt_prop v k = (case get_prop v k of Inl e \<Rightarrow> JUndefined | Inr x \<Rightarrow> x)"

text \<open>
  \<^verbatim>\<open>Array.prototype.some\<close>: the callback runs on the elements in order until one result
  is truthy; an exception of the callback propagates.
\<close>

fun js_some :: "(jv \<Rightarrow> exn + jv) \<Rightarrow> jv list \<Rightarrow> exn + bool" where
  "js_some f [] = Inr False"
| "js_some f (x # xs) =
     (case f x of
        Inl e \<Rightarrow> Inl e
      | Inr v \<Rightarrow> if truthy v then Inr True else js_some f xs)"

text \<open>
  What the model does not compute is a parameter: the year of the clock
  (\<^verbatim>\<open>new Date().getFullYear()\<close>), \<^verbatim>\<open>JSON.parse\<close> (\<open>None\<close> when it throws a SyntaxError),
  and the outcome of a relational comparison whose operands are not both numbers
  (JavaScript converts them and answers a boolean; on JSON data it does not throw).
\<close>

record env =
  currentYear :: int
  jsonParse :: "string \<Rightarrow> jv option"
  coerce_le :: "jv \<Rightarrow> jv \<Rightarrow> bool"

text \<open>\<^verbatim>\<open>a <= b\<close>; \<^verbatim>\<open>a >= b\<close> is \<open>js_le e b a\<close>.\<close>

definition js_le :: "env \<Rightarrow> jv \<Rightarrow> jv \<Rightarrow> bool" where
  "js_le e a b = (case (a, b) of (JNum x, JNum y) \<Rightarrow> x \<le> y | _ \<Rightarrow> coerce_le e a b)"

text \<open>
  Array index read \<^verbatim>\<open>xs[i]\<close>: \<^verbatim>\<open>undefined\<close> beyond the end of the array.
\<close>

definition at :: "'a list \<Rightarrow> nat \<Rightarrow> 'a option" where
  "at xs i = (if i < length xs then Some (xs ! i) else None)"

section \<open>Categories\<close>

text \<open>
  The \<^verbatim>\<open>Category\<close> descriptor with the fields the code reads and writes: \<^verbatim>\<open>type\<close>,
  \<^verbatim>\<open>id\<close>, \<^verbatim>\<open>label\<close>, \<^verbatim>\<open>description\<close>, \<^verbatim>\<open>value\<close>, all strings.
\<close>

record category =
  ctype :: string
  cid :: string
  clabel :: string
  cdescription :: string
  cvalue :: string

section \<open>Predicates of lib/validation.ts\<close>

text \<open>
  \<^verbatim>\<open>validateTournamentFromData\<close>: false unless \<^verbatim>\<open>player_achievements\<close> is an array; then
  some achievement whose tournament has the short name and whose result is \<^verbatim>\<open>'winner'\<close>.
\<close>

definition validateTournamentFromData :: "jv \<Rightarrow> string \<Rightarrow> exn + jv" where
  "validateTournamentFromData player tournamentName =
     (case get_prop player ''player_achievements'' of
        Inl e \<Rightarrow> Inl e
      | Inr (JArr achievements) \<Rightarrow>
          (case js_some
                  (\<lambda>achievement.
                     case get_prop achievement ''tournaments'' of
                       Inl e \<Rightarrow> Inl e
                     | Inr t \<Rightarrow>
                         if strict_eq (opt_prop t ''short_name'') (JStr tournamentName)
                         then (case get_prop achievement ''result'' of
                                 Inl e \<Rightarrow> Inl e
                               | Inr r \<Rightarrow> Inr (JBool (strict_eq r (JStr ''winner''))))
                         else Inr (JBool False))
                  achievements of
             Inl e \<Rightarrow> Inl e
           | Inr b \<Rightarrow> Inr (JBool b))
      | Inr other \<Rightarrow> Inr (JBool False))"

text \<open>
  \<^verbatim>\<open>player.player_achievements?.some(a => a.tournaments?.short_name === 'Year-End #1')\<close>:
  \<^verbatim>\<open>undefined\<close> when the field is \<^verbatim>\<open>undefined\<close> or \<^verbatim>\<open>null\<close>, the boolean of \<^verbatim>\<open>some\<close> on
  an array, and a TypeError on any other value (it has no method \<^verbatim>\<open>some\<close>).
\<close>

definition hasYearEndNo1 :: "jv \<Rightarrow> exn + jv" where
  "hasYearEndNo1 player =
     (case get_prop player ''player_achievements'' of
        Inl e \<Rightarrow> Inl e
      | Inr JUndefined \<Rightarrow> Inr JUndefined
      | Inr JNull \<Rightarrow> Inr JUndefined
      | Inr (JArr achievements) \<Rightarrow>
          (case js_some
                  (\<lambda>a. case get_prop a ''tournaments'' of
                          Inl e \<Rightarrow> Inl e
                        | Inr t \<Rightarrow>
                            Inr (JBool (strict_eq (opt_prop t ''short_name'') (JStr ''Year-End #1''))))
                  achievements of
             Inl e \<Rightarrow> Inl e
           | Inr b \<Rightarrow> Inr (JBool b))
      | Inr other \<Rightarrow> Inl TypeError)"

text \<open>
  \<^verbatim>\<open>validateRankingFromData\<close>: false unless \<^verbatim>\<open>player_rankings\<close> is an array. For
  \<^verbatim>\<open>'world_no1'\<close> both constants are computed, then \<^verbatim>\<open>hasNo1Ranking || hasYearEndNo1\<close> is
  returned.
\<close>

definition validateRankingFromData :: "env \<Rightarrow> jv \<Rightarrow> string \<Rightarrow> exn + jv" where
  "validateRankingFromData e player rankingType =
     (case get_prop player ''player_rankings'' of
        Inl ex \<Rightarrow> Inl ex
      | Inr (JArr rankings) \<Rightarrow>
          if rankingType = ''world_no1'' then
            (case js_some
                    (\<lambda>r. case get_prop r ''singles_ranking'' of
                            Inl ex \<Rightarrow> Inl ex
                          | Inr s \<Rightarrow> Inr (JBool (strict_eq s (JNum 1))))
                    rankings of
               Inl ex \<Rightarrow> Inl ex
             | Inr hasNo1Ranking \<Rightarrow>
                 (case hasYearEndNo1 player of
                    Inl ex \<Rightarrow> Inl ex
                  | Inr ye \<Rightarrow> Inr (js_or (JBool hasNo1Ranking) ye)))
          else if rankingType = ''top10'' then
            (case js_some
                    (\<lambda>r. case get_prop r ''singles_ranking'' of
                            Inl ex \<Rightarrow> Inl ex
                          | Inr s \<Rightarrow> Inr (JBool (js_le e s (JNum 10))))
                    rankings of
               Inl ex \<Rightarrow> Inl ex
             | Inr b \<Rightarrow> Inr (JBool b))
          else Inr (JBool False)
      | Inr other \<Rightarrow> Inr (JBool False))"

text \<open>\<^verbatim>\<open>validateAchievementFromData\<close>.\<close>

definition validateAchievementFromData :: "jv \<Rightarrow> string \<Rightarrow> exn + jv" where
  "validateAchievementFromData player achievementType =
     (case get_prop player ''player_achievements'' of
        Inl e \<Rightarrow> Inl e
      | Inr (JArr achievements) \<Rightarrow>
          (case js_some
                  (\<lambda>achievement.
                     case get_prop achievement ''achievement_type'' of
                       Inl e \<Rightarrow> Inl e
                     | Inr t \<Rightarrow> Inr (JBool (strict_eq t (JStr achievementType))))
                  achievements of
             Inl e \<Rightarrow> Inl e
           | Inr b \<Rightarrow> Inr (JBool b))
      | Inr other \<Rightarrow> Inr (JBool False))"

text \<open>
  \<^verbatim>\<open>validateEra\<close>. The career runs from \<^verbatim>\<open>turned_pro || 1990\<close> to
  \<^verbatim>\<open>retired || currentYear\<close>. An era that starts with a brace is parsed as JSON: a parse
  error or any exception inside that block returns false, a truthy \<^verbatim>\<open>active_years\<close> decides
  by overlap, and otherwise control falls through to the switch on the era string.
\<close>

definition eraSwitch :: "env \<Rightarrow> jv \<Rightarrow> jv \<Rightarrow> string \<Rightarrow> bool" where
  "eraSwitch e careerStart careerEnd era =
     (if era = ''2020s'' then js_le e (JNum 2020) careerEnd
      else if era = ''2010s'' then js_le e careerStart (JNum 2019) \<and> js_le e (JNum 2010) careerEnd
      else if era = ''2000s'' then js_le e careerStart (JNum 2009) \<and> js_le e (JNum 2000) careerEnd
      else if era = ''1990s'' then js_le e careerStart (JNum 1999) \<and> js_le e (JNum 1990) careerEnd
      else False)"

definition validateEra :: "env \<Rightarrow> jv \<Rightarrow> string \<Rightarrow> exn + jv" where
  "validateEra e player era =
     (case get_prop player ''turned_pro'' of
        Inl ex \<Rightarrow> Inl ex
      | Inr turnedPro \<Rightarrow>
     (case get_prop player ''retired'' of
        Inl ex \<Rightarrow> Inl ex
      | Inr retired \<Rightarrow>
          let careerStart = js_or turnedPro (JNum 1990);
              careerEnd = js_or retired (JNum (currentYear e))
          in if take 1 era = ''{'' then
               (case jsonParse e era of
                  None \<Rightarrow> Inr (JBool False)
                | Some eraData \<Rightarrow>
                    (case get_prop eraData ''active_years'' of
                       Inl ex \<Rightarrow> Inr (JBool False)
                     | Inr active_years \<Rightarrow>
                         if truthy active_years then
                           Inr (JBool (js_le e careerStart (opt_prop active_years ''end'')
                                       \<and> js_le e (opt_prop active_years ''start'') careerEnd))
                         else Inr (JBool (eraSwitch e careerStart careerEnd era))))
             else Inr (JBool (eraSwitch e careerStart careerEnd era))))"

text \<open>
  \<^verbatim>\<open>validateCategory\<close>: the switch on the category type inside \<^verbatim>\<open>try\<close>; the \<^verbatim>\<open>catch\<close> turns
  every exception into false. The category is \<open>None\<close> when the caller passes \<^verbatim>\<open>undefined\<close>
  (an index beyond the end of a category array): reading its \<^verbatim>\<open>type\<close> throws inside the
  \<^verbatim>\<open>try\<close>. The function is \<^verbatim>\<open>async\<close>; the value is what its promise resolves to, and
  \<open>Inl\<close> would be a rejected promise.
\<close>

definition validateCategory_try :: "env \<Rightarrow> jv \<Rightarrow> category option \<Rightarrow> exn + jv" where
  "validateCategory_try e player category =
     (case category of
        None \<Rightarrow> Inl TypeError
      | Some c \<Rightarrow>
          if ctype c = ''country'' then
            (case get_prop player ''nationality'' of
               Inl ex \<Rightarrow> Inl ex
             | Inr n \<Rightarrow> Inr (JBool (strict_eq n (JStr (cvalue c)))))
          else if ctype c = ''tournament'' then validateTournamentFromData player (cvalue c)
          else if ctype c = ''era'' then validateEra e player (cvalue c)
          else if ctype c = ''style'' then
            (case get_prop player ''plays_hand'' of
               Inl ex \<Rightarrow> Inl ex
             | Inr h \<Rightarrow> Inr (JBool (strict_eq h (JStr (cvalue c)))))
          else if ctype c = ''ranking'' then validateRankingFromData e player (cvalue c)
          else if ctype c = ''achievement'' then validateAchievementFromData player (cvalue c)
          else Inr (JBool False))"

definition validateCategory :: "env \<Rightarrow> jv \<Rightarrow> category option \<Rightarrow> exn + jv" where
  "validateCategory e player category =
     (case validateCategory_try e player category of
        Inl ex \<Rightarrow> Inr (JBool False)
      | Inr v \<Rightarrow> Inr v)"

section \<open>Grid Selector: selectSmartCategories\<close>

text \<open>
  The function is written twice, in the daily-quiz route (with a \<open>debug\<close> flag that only
  controls console output) and in the suggest-categories route (without it). Both bodies are
  the same text, so they share the definitions of this section.

  \<^verbatim>\<open>String.prototype.includes\<close> on the label of a tournament.
\<close>

fun starts_with :: "string \<Rightarrow> string \<Rightarrow> bool" where
  "starts_with s [] = True"
| "starts_with [] (p # ps) = False"
| "starts_with (c # cs) (p # ps) = (c = p \<and> starts_with cs ps)"

fun includes_str :: "string \<Rightarrow> string \<Rightarrow> bool" where
  "includes_str [] sub = (sub = [])"
| "includes_str (c # cs) sub = (starts_with (c # cs) sub \<or> includes_str cs sub)"

text \<open>
  The safe and risky partitions. \<^verbatim>\<open>riskyCategories\<close> keeps the categories that are not
  elements of \<open>safeCategories\<close>; the elements of that array are the very objects of the
  pool that passed the predicate, so membership by reference and membership by content agree.
\<close>

definition popularCountries :: "string list" where
  "popularCountries = [''USA'', ''ESP'', ''SRB'', ''SUI'', ''GBR'', ''FRA'', ''GER'', ''AUS'',
                       ''ARG'', ''RUS'', ''ITA'', ''CRO'']"

definition isSafe :: "category \<Rightarrow> bool" where
  "isSafe c =
     (if ctype c = ''country'' then cvalue c \<in> set popularCountries
      else if ctype c = ''tournament'' then
        includes_str (clabel c) ''Wimbledon'' \<or> includes_str (clabel c) ''US Open''
        \<or> includes_str (clabel c) ''French Open'' \<or> includes_str (clabel c) ''Australian Open''
      else if ctype c = ''era'' then True
      else if ctype c = ''ranking'' then True
      else False)"

definition safeCategories :: "category list \<Rightarrow> category list" where
  "safeCategories allCategories = filter isSafe allCategories"

definition riskyCategories :: "category list \<Rightarrow> category list" where
  "riskyCategories allCategories =
     filter (\<lambda>c. c \<notin> set (safeCategories allCategories)) allCategories"

text \<open>
  \<^verbatim>\<open>pseudoRandom(max, offset) = Math.floor(Math.abs(Math.sin((seed + offset) * 9999) * 10000) % max)\<close>.
  The floating-point sine is not computed here: the parameter \<open>sinHash x\<close> stands for
  the integer part of \<^verbatim>\<open>Math.abs(Math.sin(x * 9999) * 10000)\<close>, a number between 0 and
  10000 for every integer seed. For a non-negative \<open>v\<close> and a positive integer \<open>max\<close>
  the integer part of \<^verbatim>\<open>v % max\<close> is the integer part of \<open>v\<close> modulo \<open>max\<close>, which
  is what the definition computes.
\<close>

definition pseudoRandom :: "(int \<Rightarrow> nat) \<Rightarrow> int \<Rightarrow> nat \<Rightarrow> nat \<Rightarrow> nat" where
  "pseudoRandom sinHash seed m offset = sinHash (seed + int offset) mod m"

text \<open>
  The mutable state of one call: the array \<open>selected\<close>, the set \<open>usedIds\<close> and the two
  flags. The row loop and the column loop are the same text up to the flag they read and
  set and the offset of the slot (\<open>i * 100\<close> for rows, \<open>(i + 3) * 100\<close> for columns).
\<close>

datatype axis = RowAxis | ColAxis

record sel_state =
  selected :: "category list"
  usedIds :: "string set"
  rowHasCountry :: bool
  colHasCountry :: bool

definition axisHasCountry :: "axis \<Rightarrow> sel_state \<Rightarrow> bool" where
  "axisHasCountry ax st = (case ax of RowAxis \<Rightarrow> rowHasCountry st | ColAxis \<Rightarrow> colHasCountry st)"

definition slotOffset :: "axis \<Rightarrow> nat \<Rightarrow> nat" where
  "slotOffset ax i = (case ax of RowAxis \<Rightarrow> i * 100 | ColAxis \<Rightarrow> (i + 3) * 100)"

text \<open>
  The pool of a slot: the safe categories for the first two slots of an axis, safe followed
  by risky for the third; without the used ids and, once the axis has a country, without
  countries. When nothing is left, the same filter is applied to the whole pool.
\<close>

definition slotPool :: "category list \<Rightarrow> axis \<Rightarrow> nat \<Rightarrow> sel_state \<Rightarrow> category list" where
  "slotPool allCategories ax i st =
     (let pool = (if i < 2 then safeCategories allCategories
                  else safeCategories allCategories @ riskyCategories allCategories);
          pool = filter (\<lambda>c. if cid c \<in> usedIds st then False
                              else if ctype c = ''country'' \<and> axisHasCountry ax st then False
                              else True) pool
      in if length pool = 0
         then filter (\<lambda>c. cid c \<notin> usedIds st \<and> \<not> (ctype c = ''country'' \<and> axisHasCountry ax st))
                allCategories
         else pool)"

text \<open>
  The inner loop: up to 100 draws of an index into the pool; the first candidate whose id is
  unused is pushed, its id is recorded and the flag of the axis is set when it is a
  country. The index is below the length of the pool, which is not empty when it is read.
\<close>

definition accept :: "axis \<Rightarrow> category \<Rightarrow> sel_state \<Rightarrow> sel_state" where
  "accept ax candidate st =
     (let st = st\<lparr>selected := selected st @ [candidate],
                  usedIds := insert (cid candidate) (usedIds st)\<rparr>
      in if ctype candidate = ''country''
         then (case ax of RowAxis \<Rightarrow> st\<lparr>rowHasCountry := True\<rparr>
                        | ColAxis \<Rightarrow> st\<lparr>colHasCountry := True\<rparr>)
         else st)"

function pickLoop ::
  "(int \<Rightarrow> nat) \<Rightarrow> int \<Rightarrow> axis \<Rightarrow> nat \<Rightarrow> category list \<Rightarrow> nat \<Rightarrow> sel_state \<Rightarrow> sel_state" where
  "pickLoop sinHash seed ax i pool attempts st =
     (if attempts < 100 \<and> length pool > 0 then
        let index = pseudoRandom sinHash seed (length pool) (slotOffset ax i + attempts);
            candidate = pool ! index
        in if cid candidate \<notin> usedIds st then accept ax candidate st
           else pickLoop sinHash seed ax i pool (attempts + 1) st
      else st)"
  by pat_completeness auto
termination
  by (relation "measure (\<lambda>(sinHash, seed, ax, i, pool, attempts, st). 100 - attempts)") auto

declare pickLoop.simps [simp del]

definition selectSlot ::
  "(int \<Rightarrow> nat) \<Rightarrow> category list \<Rightarrow> int \<Rightarrow> axis \<Rightarrow> nat \<Rightarrow> sel_state \<Rightarrow> sel_state" where
  "selectSlot sinHash allCategories seed ax i st =
     pickLoop sinHash seed ax i (slotPool allCategories ax i st) 0 st"

definition selectAxis ::
  "(int \<Rightarrow> nat) \<Rightarrow> category list \<Rightarrow> int \<Rightarrow> axis \<Rightarrow> sel_state \<Rightarrow> sel_state" where
  "selectAxis sinHash allCategories seed ax st =
     fold (selectSlot sinHash allCategories seed ax) [0, 1, 2] st"

definition initialSelection :: sel_state where
  "initialSelection = \<lparr>selected = [], usedIds = {}, rowHasCountry = False, colHasCountry = False\<rparr>"

definition selectRows :: "(int \<Rightarrow> nat) \<Rightarrow> category list \<Rightarrow> int \<Rightarrow> sel_state" where
  "selectRows sinHash allCategories seed =
     selectAxis sinHash allCategories seed RowAxis initialSelection"

definition selectSmartCategories ::
  "(int \<Rightarrow> nat) \<Rightarrow> category list \<Rightarrow> int \<Rightarrow> bool \<Rightarrow> category list" where
  "selectSmartCategories sinHash allCategories seed debug =
     selected (selectAxis sinHash allCategories seed ColAxis
                 (selectRows sinHash allCategories seed))"

definition suggest_selectSmartCategories ::
  "(int \<Rightarrow> nat) \<Rightarrow> category list \<Rightarrow> int \<Rightarrow> category list" where
  "suggest_selectSmartCategories sinHash allCategories seed =
     selected (selectAxis sinHash allCategories seed ColAxis
                 (selectAxis sinHash allCategories seed RowAxis initialSelection))"

text \<open>
  What the row slots chose and what the column slots chose, and the grid the callers cut
  from the result: \<^verbatim>\<open>selected.slice(0, 3)\<close> and \<^verbatim>\<open>selected.slice(3, 6)\<close>.
\<close>

definition rowSelection :: "(int \<Rightarrow> nat) \<Rightarrow> category list \<Rightarrow> int \<Rightarrow> category list" where
  "rowSelection sinHash allCategories seed = selected (selectRows sinHash allCategories seed)"

definition colSelection :: "(int \<Rightarrow> nat) \<Rightarrow> category list \<Rightarrow> int \<Rightarrow> category list" where
  "colSelection sinHash allCategories seed =
     drop (length (rowSelection sinHash allCategories seed))
       (selectSmartCategories sinHash allCategories seed False)"

definition countryCount :: "category list \<Rightarrow> nat" where
  "countryCount cs = length (filter (\<lambda>c. ctype c = ''country'') cs)"

record quiz =
  q_rows :: "category list"
  q_columns :: "category list"

definition gridOf :: "category list \<Rightarrow> quiz" where
  "gridOf picks = \<lparr>q_rows = take 3 picks, q_columns = take 3 (drop 3 picks)\<rparr>"

section \<open>Cell validation\<close>

text \<open>
  The outcome of the player query of one cell: the call throws, it returns an error, it
  returns no data, or it returns the rows (the limit of 200 or 500 rows is applied by the
  datastore).
\<close>

datatype 'a query = QThrows | QError | QNull | QData 'a

text \<open>
  \<^verbatim>\<open>checkCellHasSolution\<close> of the daily-quiz route: true as soon as a player matches both
  categories; true as well when the query fails or anything throws.
\<close>

fun cellLoop :: "env \<Rightarrow> jv list \<Rightarrow> category option \<Rightarrow> category option \<Rightarrow> exn + bool" where
  "cellLoop e [] rowCategory colCategory = Inr False"
| "cellLoop e (player # players) rowCategory colCategory =
     (case validateCategory e player rowCategory of
        Inl ex \<Rightarrow> Inl ex
      | Inr rowMatch \<Rightarrow>
          (case validateCategory e player colCategory of
             Inl ex \<Rightarrow> Inl ex
           | Inr colMatch \<Rightarrow>
               if truthy rowMatch \<and> truthy colMatch then Inr True
               else cellLoop e players rowCategory colCategory))"


text \<open>
  \<^verbatim>\<open>validateCell\<close> of the admin validate route: counts the matching players and grades the
  cell; a failed query or an exception gives the cell with count 0 and status impossible.
\<close>

datatype cell_status = Safe | Risky | Impossible

record CellValidation =
  cv_row :: nat
  cv_col :: nat
  playerCount :: nat
  cv_status :: cell_status
  samplePlayers :: "jv list"

fun validPlayersLoop ::
  "env \<Rightarrow> jv list \<Rightarrow> category option \<Rightarrow> category option \<Rightarrow> jv list \<Rightarrow> exn + jv list" where
  "validPlayersLoop e [] rowCategory colCategory validPlayers = Inr validPlayers"
| "validPlayersLoop e (player # players) rowCategory colCategory validPlayers =
     (case validateCategory e player rowCategory of
        Inl ex \<Rightarrow> Inl ex
      | Inr rowMatch \<Rightarrow>
          (case validateCategory e player colCategory of
             Inl ex \<Rightarrow> Inl ex
           | Inr colMatch \<Rightarrow>
               if truthy rowMatch \<and> truthy colMatch then
                 (case get_prop player ''name'' of
                    Inl ex \<Rightarrow> Inl ex
                  | Inr name \<Rightarrow>
                      validPlayersLoop e players rowCategory colCategory (validPlayers @ [name]))
               else validPlayersLoop e players rowCategory colCategory validPlayers))"

definition cellFailed :: "nat \<Rightarrow> nat \<Rightarrow> CellValidation" where
  "cellFailed row col =
     \<lparr>cv_row = row, cv_col = col, playerCount = 0, cv_status = Impossible, samplePlayers = []\<rparr>"

definition validateCell ::
  "env \<Rightarrow> jv list query \<Rightarrow> category option \<Rightarrow> category option \<Rightarrow> nat \<Rightarrow> nat \<Rightarrow> CellValidation" where
  "validateCell e q rowCategory colCategory row col =
     (case q of
        QThrows \<Rightarrow> cellFailed row col
      | QError \<Rightarrow> cellFailed row col
      | QNull \<Rightarrow> cellFailed row col
      | QData players \<Rightarrow>
          (case validPlayersLoop e players rowCategory colCategory [] of
             Inl ex \<Rightarrow> cellFailed row col
           | Inr validPlayers \<Rightarrow>
               let playerCount = length validPlayers;
                   status = (if playerCount = 0 then Impossible
                             else if playerCount < 3 then Risky
                             else Safe)
               in \<lparr>cv_row = row, cv_col = col, playerCount = playerCount, cv_status = status,
                   samplePlayers = take 5 validPlayers\<rparr>))"

text \<open>
  The validate route: the nine cells in row-major order, the counts of the summary (the
  minimum, maximum and floating-point average of the counts and the message text are left
  out) and the overall status.
\<close>

datatype overall_status = Excellent | Good | Warning | Error

definition overallStatus :: "CellValidation list \<Rightarrow> overall_status" where
  "overallStatus cells =
     (let impossibleCells = filter (\<lambda>c. cv_status c = Impossible) cells;
          riskyCells = filter (\<lambda>c. cv_status c = Risky) cells
      in if length impossibleCells > 0 then Error
         else if length riskyCells > 2 then Warning
         else if length riskyCells > 0 then Good
         else Excellent)"

record validation_summary =
  totalCells :: nat
  validCells :: nat
  impossibleCells :: nat
  riskyCells :: nat
  safeCells :: nat

text \<open>
  The answers of the admin routes: the answer of the authentication helper, a refusal of
  the route with its status code and error message, a 500 after a datastore error, or
  success with its data.
\<close>

datatype 'a response = Unauthorized | Rejected nat string | ServerError | Success 'a

definition validateCells ::
  "env \<Rightarrow> (nat \<Rightarrow> nat \<Rightarrow> jv list query) \<Rightarrow> category list \<Rightarrow> category list \<Rightarrow> CellValidation list" where
  "validateCells e fetch rowCategories colCategories =
     concat (map (\<lambda>row. map (\<lambda>col. validateCell e (fetch row col)
                                   (at rowCategories row) (at colCategories col) row col)
                          [0, 1, 2])
                 [0, 1, 2])"

definition validatePOST ::
  "bool \<Rightarrow> env \<Rightarrow> (nat \<Rightarrow> nat \<Rightarrow> jv list query) \<Rightarrow> category list option \<Rightarrow> category list option
   \<Rightarrow> (CellValidation list \<times> validation_summary \<times> overall_status) response" where
  "validatePOST admin e fetch rowCategories colCategories =
     (if \<not> admin then Unauthorized
      else case (rowCategories, colCategories) of
        (Some rs, Some cs) \<Rightarrow>
          if length rs \<noteq> 3 \<or> length cs \<noteq> 3
          then Rejected 400 ''Must have exactly 3 row and 3 column categories''
          else
            let cells = validateCells e fetch rs cs;
                summary = \<lparr>totalCells = 9,
                           validCells = length (filter (\<lambda>c. playerCount c > 0) cells),
                           impossibleCells = length (filter (\<lambda>c. cv_status c = Impossible) cells),
                           riskyCells = length (filter (\<lambda>c. cv_status c = Risky) cells),
                           safeCells = length (filter (\<lambda>c. cv_status c = Safe) cells)\<rparr>
            in Success (cells, summary, overallStatus cells)
      | _ \<Rightarrow> Rejected 400 ''Missing rowCategories or colCategories'')"

section \<open>The daily-quiz route\<close>



text \<open>
  The retry loop of the handler. The state holds the attempt counter, the last quiz, the
  flag \<open>isValid\<close> and the console line of each attempt (its number and its seed).
\<close>

record loop_state =
  attempts :: nat
  lastQuiz :: "quiz option"
  isValid :: bool
  attemptLog :: "(nat \<times> int) list"





subsection \<open>Tables\<close>

text \<open>
  The response body, a row of \<open>cached_daily_quizzes\<close>, a row of \<open>quiz_templates\<close> and
  the two tables. The debug diagnostics of a response are left out. Times are integers
  (milliseconds).
\<close>

datatype quiz_source = Manual | Algorithmic

record quiz_payload =
  p_success :: bool
  p_date :: string
  p_source :: "string option"
  p_title :: "string option"
  p_description :: "string option"
  p_difficulty :: "string option"
  p_categories :: quiz
  p_seed :: "int option"
  p_attempts :: "nat option"
  p_message :: string
  p_warning :: "string option"
  p_cached :: bool
  p_generatedAt :: "int option"

record cached_quiz =
  c_date :: string
  c_quiz_source :: quiz_source
  c_quiz_template_id :: "string option"
  c_quiz_data :: quiz_payload
  c_generated_at :: int
  c_expires_at :: int

record template =
  t_id :: string
  t_title :: string
  t_description :: "string option"
  t_difficulty :: "string option"
  t_row_categories :: "category list"
  t_col_categories :: "category list"
  t_scheduled_date :: "string option"
  t_is_published :: bool
  t_updated_at :: int

record store =
  quiz_templates :: "template list"
  cached_daily_quizzes :: "cached_quiz list"

text \<open>
  \<^verbatim>\<open>.single()\<close>: the row when the query matches exactly one row, an error otherwise.
\<close>

definition single :: "'a list \<Rightarrow> 'a option" where
  "single rows = (case rows of [r] \<Rightarrow> Some r | _ \<Rightarrow> None)"

text \<open>
  The caching functions. Every datastore call takes a flag that says whether the call
  itself fails; \<^verbatim>\<open>getCachedQuiz\<close> answers null on any error and \<^verbatim>\<open>cacheQuiz\<close> only logs
  one. The upsert on the unique column \<open>date\<close> replaces the row of that date or appends a
  new one. The expiry is 24 hours after the write (the local-time arithmetic of
  \<^verbatim>\<open>setHours\<close> is taken without a clock change in between).
\<close>

definition getCachedQuiz :: "bool \<Rightarrow> int \<Rightarrow> string \<Rightarrow> cached_quiz list \<Rightarrow> cached_quiz option" where
  "getCachedQuiz fails now date table =
     (if fails then None
      else single (filter (\<lambda>r. c_date r = date \<and> c_expires_at r > now) table))"

definition upsert :: "cached_quiz \<Rightarrow> cached_quiz list \<Rightarrow> cached_quiz list" where
  "upsert row table =
     (if list_ex (\<lambda>r. c_date r = c_date row) table
      then map (\<lambda>r. if c_date r = c_date row then row else r) table
      else table @ [row])"

definition hours24 :: int where
  "hours24 = 24 * 60 * 60 * 1000"

definition cacheRow ::
  "int \<Rightarrow> string \<Rightarrow> quiz_source \<Rightarrow> quiz_payload \<Rightarrow> string option \<Rightarrow> cached_quiz" where
  "cacheRow now date source quizData templateId =
     \<lparr>c_date = date, c_quiz_source = source, c_quiz_template_id = templateId,
      c_quiz_data = quizData, c_generated_at = now, c_expires_at = now + hours24\<rparr>"

definition cacheQuiz ::
  "bool \<Rightarrow> int \<Rightarrow> string \<Rightarrow> quiz_source \<Rightarrow> quiz_payload \<Rightarrow> string option \<Rightarrow> cached_quiz list
   \<Rightarrow> cached_quiz list" where
  "cacheQuiz fails now date source quizData templateId table =
     (if fails then table else upsert (cacheRow now date source quizData templateId) table)"

definition deleteCache :: "bool \<Rightarrow> string \<Rightarrow> cached_quiz list \<Rightarrow> cached_quiz list" where
  "deleteCache fails date table = (if fails then table else filter (\<lambda>r. c_date r \<noteq> date) table)"


subsection \<open>The handler\<close>

text \<open>
  The request: the date and the time of the clock, and the query parameters. \<open>testMode\<close>
  is the parsed value of the parameter \<open>t\<close> when it is present, not empty, numeric and of
  magnitude below \<open>2 ^ 53\<close>: there \<^verbatim>\<open>Math.floor(parseInt(t) / 1000) % 50000\<close> is exact
  and agrees with the integer division and the sign-preserving remainder of
  \<open>dateNumber\<close>. A non-numeric \<open>t\<close> (the seed is then not a number) and a larger one
  (the division of doubles rounds) are outside the model.
\<close>

record request =
  today :: string
  clock :: int
  testMode :: "int option"
  debugMode :: bool
  skipValidation :: bool
  bypassCache :: bool

record get_faults =
  cache_read_fails :: bool
  manual_read_fails :: bool
  cache_write_fails :: bool

definition digitsToInt :: "string \<Rightarrow> int" where
  "digitsToInt s = foldl (\<lambda>n c. 10 * n + (int (of_char c) - 48)) 0 s"

definition js_rem :: "int \<Rightarrow> int \<Rightarrow> int" where
  "js_rem a b = (if a < 0 then - ((- a) mod \<bar>b\<bar>) else a mod \<bar>b\<bar>)"

definition dateNumber :: "request \<Rightarrow> int" where
  "dateNumber rq =
     (let dateNumber = digitsToInt (filter (\<lambda>c. c \<noteq> CHR ''-'') (today rq))
      in case testMode rq of
           None \<Rightarrow> dateNumber
         | Some t \<Rightarrow> dateNumber + js_rem (t div 1000) 50000)"

definition emptyPayload :: quiz_payload where
  "emptyPayload =
     \<lparr>p_success = True, p_date = [], p_source = None, p_title = None, p_description = None,
      p_difficulty = None, p_categories = \<lparr>q_rows = [], q_columns = []\<rparr>, p_seed = None,
      p_attempts = None, p_message = [], p_warning = None, p_cached = False,
      p_generatedAt = None\<rparr>"

datatype http = Json quiz_payload | Error500

record outcome =
  response :: http
  final :: store
  trace :: "(nat \<times> int) list"


text \<open>
  The three stages of the handler in the order of the source: a fresh cache entry, a
  published manual quiz, the generation loop. The degraded response returns before the call
  of \<^verbatim>\<open>cacheQuiz\<close>; the handler's catch block answers 500.
\<close>

definition cacheStage :: "get_faults \<Rightarrow> request \<Rightarrow> store \<Rightarrow> outcome option" where
  "cacheStage f rq db =
     (if \<not> bypassCache rq \<and> testMode rq = None then
        (case getCachedQuiz (cache_read_fails f) (clock rq) (today rq) (cached_daily_quizzes db) of
           Some cachedQuiz \<Rightarrow>
             Some \<lparr>response = Json ((c_quiz_data cachedQuiz)
                                      \<lparr>p_cached := True,
                                       p_generatedAt := Some (c_generated_at cachedQuiz)\<rparr>),
                   final = db, trace = []\<rparr>
         | None \<Rightarrow> None)
      else None)"




definition generatedPayload :: "request \<Rightarrow> quiz \<Rightarrow> nat \<Rightarrow> quiz_payload" where
  "generatedPayload rq quiz n =
     emptyPayload
       \<lparr>p_success := True, p_date := today rq, p_categories := quiz,
        p_seed := Some (dateNumber rq + (int n - 1) * 7919),
        p_attempts := Some n,
        p_message := ''Daily quiz generated for '' @ today rq\<rparr>"



section \<open>The publish route\<close>









section \<open>Calls of the selector in their runtime\<close>

text \<open>
  What a function of these modules can reach besides its arguments: the console, the clock
  (\<^verbatim>\<open>Date.now()\<close>, which the suggest-categories route reads to choose a seed when the
  request gives none) and the generator behind \<^verbatim>\<open>Math.random()\<close> (which no function of
  the repository calls; \<open>entropy\<close> is what it would return next). The lines that
  \<^verbatim>\<open>selectSmartCategories\<close> prints are kept as data: the sizes of the two partitions,
  the warning of a slot that falls back to the whole pool, the choice of a slot, and with
  \<open>debug\<close> the final selection and the two flags.
\<close>

datatype log_line =
    LogPools nat nat
  | WarnFallback axis nat
  | LogPick axis nat string string
  | LogFinal "(string \<times> string) list"
  | LogFlags bool bool

record runtime =
  console :: "log_line list"
  wallClock :: int
  entropy :: "nat list"

definition consoleLog :: "log_line \<Rightarrow> runtime \<Rightarrow> runtime" where
  "consoleLog line w = w\<lparr>console := console w @ [line]\<rparr>"

text \<open>
  \<^verbatim>\<open>selectSmartCategories\<close> of the daily-quiz route once more, statement by statement,
  now as a function from the runtime before the call to the result and the runtime after
  it (the counter \<open>attempts\<close> of the inner loop is called \<open>tries\<close>). The arrays, the
  set and the flags of a call are created inside the call, and the modules keep no state
  of their own between calls. The definitions of the selector section give the result
  alone; lemma \<open>selectSmartCategories_run_pure\<close> proves that the two translations agree.
\<close>

function pickLoop_run ::
  "(int \<Rightarrow> nat) \<Rightarrow> int \<Rightarrow> axis \<Rightarrow> nat \<Rightarrow> category list \<Rightarrow> nat \<Rightarrow> sel_state \<times> runtime
   \<Rightarrow> sel_state \<times> runtime" where
  "pickLoop_run sinHash seed ax i pool tries (st, w) =
     (if tries < 100 \<and> length pool > 0 then
        let index = pseudoRandom sinHash seed (length pool) (slotOffset ax i + tries);
            candidate = pool ! index
        in if cid candidate \<notin> usedIds st
           then (accept ax candidate st,
                 consoleLog (LogPick ax (i + 1) (ctype candidate) (clabel candidate)) w)
           else pickLoop_run sinHash seed ax i pool (tries + 1) (st, w)
      else (st, w))"
  by pat_completeness auto
termination
  by (relation "measure (\<lambda>(sinHash, seed, ax, i, pool, tries, s). 100 - tries)") auto

declare pickLoop_run.simps [simp del]

definition selectSlot_run ::
  "(int \<Rightarrow> nat) \<Rightarrow> category list \<Rightarrow> int \<Rightarrow> axis \<Rightarrow> nat \<Rightarrow> sel_state \<times> runtime
   \<Rightarrow> sel_state \<times> runtime" where
  "selectSlot_run sinHash allCategories seed ax i s =
     (let st = fst s;
          w = snd s;
          pool = (if i < 2 then safeCategories allCategories
                  else safeCategories allCategories @ riskyCategories allCategories);
          pool = filter (\<lambda>c. if cid c \<in> usedIds st then False
                              else if ctype c = ''country'' \<and> axisHasCountry ax st then False
                              else True) pool
      in if length pool = 0
         then pickLoop_run sinHash seed ax i
                (filter (\<lambda>c. cid c \<notin> usedIds st
                               \<and> \<not> (ctype c = ''country'' \<and> axisHasCountry ax st))
                   allCategories)
                0 (st, consoleLog (WarnFallback ax (i + 1)) w)
         else pickLoop_run sinHash seed ax i pool 0 (st, w))"

definition selectAxis_run ::
  "(int \<Rightarrow> nat) \<Rightarrow> category list \<Rightarrow> int \<Rightarrow> axis \<Rightarrow> sel_state \<times> runtime
   \<Rightarrow> sel_state \<times> runtime" where
  "selectAxis_run sinHash allCategories seed ax s =
     fold (selectSlot_run sinHash allCategories seed ax) [0, 1, 2] s"

definition selectSmartCategories_run ::
  "(int \<Rightarrow> nat) \<Rightarrow> runtime \<Rightarrow> category list \<Rightarrow> int \<Rightarrow> bool \<Rightarrow> category list \<times> runtime" where
  "selectSmartCategories_run sinHash w allCategories seed debug =
     (let w = consoleLog (LogPools (length (safeCategories allCategories))
                                   (length (riskyCategories allCategories))) w;
          s = selectAxis_run sinHash allCategories seed ColAxis
                (selectAxis_run sinHash allCategories seed RowAxis (initialSelection, w));
          st = fst s;
          w = snd s;
          w = (if debug
               then consoleLog (LogFlags (rowHasCountry st) (colHasCountry st))
                      (consoleLog (LogFinal (map (\<lambda>c. (ctype c, clabel c)) (selected st))) w)
               else w)
      in (selected st, w))"

text \<open>
  The copy in the suggest-categories route has no console call, and the handler of that
  route: the seed is the parameter \<open>seed\<close> when it is present (\<open>seedParam\<close> is its parsed
  value, for a numeric one) and the clock otherwise; \<open>count\<close> alternatives follow, the
  \<open>i\<close>-th with the seed \<open>baseSeed + i * 10000\<close> (\<open>count\<close> is the number of rounds of
  the loop: the parsed parameter, 3 when it is absent, none when it is not a positive
  number). \<open>pool\<close> is what \<^verbatim>\<open>buildCategoryPool\<close> returns, \<open>None\<close> when it
  throws. The two console lines of the handler itself are left out.
\<close>

definition suggest_selectSmartCategories_run ::
  "(int \<Rightarrow> nat) \<Rightarrow> runtime \<Rightarrow> category list \<Rightarrow> int \<Rightarrow> category list \<times> runtime" where
  "suggest_selectSmartCategories_run sinHash w allCategories seed =
     (let s = selectAxis sinHash allCategories seed ColAxis
                (selectAxis sinHash allCategories seed RowAxis initialSelection)
      in (selected s, w))"

record suggestion =
  s_rows :: "category list"
  s_columns :: "category list"
  s_seed :: int

definition suggestionOf :: "category list \<Rightarrow> int \<Rightarrow> suggestion" where
  "suggestionOf picks seed = \<lparr>s_rows = take 3 picks, s_columns = take 3 (drop 3 picks), s_seed = seed\<rparr>"

fun alternatives ::
  "(int \<Rightarrow> nat) \<Rightarrow> category list \<Rightarrow> int \<Rightarrow> nat \<Rightarrow> runtime \<Rightarrow> suggestion list \<times> runtime" where
  "alternatives sinHash allCategories baseSeed 0 w = ([], w)"
| "alternatives sinHash allCategories baseSeed (Suc n) w =
     (let (alts, w) = alternatives sinHash allCategories baseSeed n w;
          altSeed = baseSeed + int (Suc n) * 10000;
          (altSuggestion, w) = suggest_selectSmartCategories_run sinHash w allCategories altSeed
      in (alts @ [suggestionOf altSuggestion altSeed], w))"

definition suggestGET ::
  "bool \<Rightarrow> (int \<Rightarrow> nat) \<Rightarrow> runtime \<Rightarrow> int option \<Rightarrow> nat \<Rightarrow> category list option
   \<Rightarrow> (suggestion \<times> suggestion list \<times> nat) response" where
  "suggestGET admin sinHash w seedParam count pool =
     (if \<not> admin then Unauthorized
      else
        let baseSeed = (case seedParam of Some seed \<Rightarrow> seed | None \<Rightarrow> wallClock w)
        in case pool of
             None \<Rightarrow> ServerError
           | Some allCategories \<Rightarrow>
               if length allCategories = 0 then Rejected 500 ''No categories available''
               else
                 let (primarySuggestion, w) =
                       suggest_selectSmartCategories_run sinHash w allCategories baseSeed;
                     (alts, w) = alternatives sinHash allCategories baseSeed count w
                 in Success (suggestionOf primarySuggestion baseSeed, alts,
                             length allCategories))"




section \<open>Definitions used in the statements\<close>

text \<open>
  The tiers and the overall status in the words of the specification: safe from 3
  satisfying players, risky for 1 or 2, impossible for none; error with an impossible cell,
  otherwise warning with more than 2 risky cells, good with 1 or 2, excellent with none.
\<close>

definition spec_tier :: "nat \<Rightarrow> cell_status" where
  "spec_tier n = (if n \<ge> 3 then Safe else if 1 \<le> n \<and> n < 3 then Risky else Impossible)"

definition countStatus :: "cell_status \<Rightarrow> CellValidation list \<Rightarrow> nat" where
  "countStatus s cells = length (filter (\<lambda>c. cv_status c = s) cells)"

definition spec_overall :: "nat \<Rightarrow> nat \<Rightarrow> overall_status" where
  "spec_overall impossible risky =
     (if impossible \<ge> 1 then Error
      else if risky > 2 then Warning
      else if risky = 1 \<or> risky = 2 then Good
      else Excellent)"

text \<open>
  The satisfying count of a cell: a player satisfies a category when
  \<^verbatim>\<open>validateCategory\<close> resolves to a truthy value, and the count is the number of fetched
  players that satisfy the row category and the column category.
\<close>

definition satisfies :: "env \<Rightarrow> jv \<Rightarrow> category option \<Rightarrow> bool" where
  "satisfies e player category =
     (case validateCategory e player category of Inl ex \<Rightarrow> False | Inr v \<Rightarrow> truthy v)"

definition matchingPlayers ::
  "env \<Rightarrow> jv list \<Rightarrow> category option \<Rightarrow> category option \<Rightarrow> jv list" where
  "matchingPlayers e players rowCategory colCategory =
     filter (\<lambda>player. satisfies e player rowCategory \<and> satisfies e player colCategory) players"

definition satisfyingCount ::
  "env \<Rightarrow> jv list \<Rightarrow> category option \<Rightarrow> category option \<Rightarrow> nat" where
  "satisfyingCount e players rowCategory colCategory =
     length (matchingPlayers e players rowCategory colCategory)"

text \<open>
  Two runtimes that differ only by lines added to the console: same clock, same random
  generator, and the earlier console is the beginning of the later one.
\<close>

definition onlyPrints :: "runtime \<Rightarrow> runtime \<Rightarrow> bool" where
  "onlyPrints w w' =
     (wallClock w' = wallClock w \<and> entropy w' = entropy w
      \<and> take (length (console w)) (console w') = console w)"






text \<open>
  The values a predicate can resolve to.
\<close>

definition booleanOrUndefined :: "jv \<Rightarrow> bool" where
  "booleanOrUndefined v = (case v of JBool b \<Rightarrow> True | JUndefined \<Rightarrow> True | _ \<Rightarrow> False)"

text \<open>
  Invariants of the selection loops and of the cache table, and sequences of cache operations.
\<close>

definition axisOk :: "axis \<Rightarrow> nat \<Rightarrow> sel_state \<Rightarrow> bool" where
  "axisOk ax k st \<longleftrightarrow>
     distinct (map cid (selected st)) \<and> cid ` set (selected st) \<subseteq> usedIds st
     \<and> k \<le> length (selected st)
     \<and> countryCount (drop k (selected st)) \<le> 1
     \<and> (0 < countryCount (drop k (selected st)) \<longrightarrow> axisHasCountry ax st)"

definition safeNonCountryIds :: "category list \<Rightarrow> string list" where
  "safeNonCountryIds allCategories =
     remdups (map cid (filter (\<lambda>c. isSafe c \<and> ctype c \<noteq> ''country'') allCategories))"

definition tracked :: "sel_state \<Rightarrow> bool" where
  "tracked st \<longleftrightarrow> usedIds st = set (map cid (selected st))"

definition onePerDate :: "cached_quiz list \<Rightarrow> bool" where
  "onePerDate table = distinct (map c_date table)"

datatype cache_op =
    Read bool int string
  | Write bool int string quiz_source quiz_payload "string option"
  | Delete bool string

fun applyOp :: "cache_op \<Rightarrow> cached_quiz list \<Rightarrow> cached_quiz list" where
  "applyOp (Read fails now date) table = table"
| "applyOp (Write fails now date source quizData templateId) table =
     cacheQuiz fails now date source quizData templateId table"
| "applyOp (Delete fails date) table = deleteCache fails date table"

text \<open>
  Concrete inputs for the closed examples.
\<close>

definition testEnv :: env where
  "testEnv = \<lparr>currentYear = 2025, jsonParse = (\<lambda>s. None), coerce_le = (\<lambda>a b. False)\<rparr>"

definition mkCategory :: "string \<Rightarrow> string \<Rightarrow> category" where
  "mkCategory t v = \<lparr>ctype = t, cid = t @ ''_'' @ v, clabel = v, cdescription = v, cvalue = v\<rparr>"

definition pool8 :: "category list" where
  "pool8 = [mkCategory ''country'' ''USA'', mkCategory ''country'' ''ESP'',
            mkCategory ''era'' ''2020s'', mkCategory ''era'' ''2010s'',
            mkCategory ''era'' ''2000s'', mkCategory ''era'' ''1990s'',
            mkCategory ''ranking'' ''world_no1'', mkCategory ''ranking'' ''top10'']"

definition testHash :: "int \<Rightarrow> nat" where
  "testHash x = nat (x mod 10001)"

definition noGetFaults :: get_faults where
  "noGetFaults = \<lparr>cache_read_fails = False, manual_read_fails = False, cache_write_fails = False\<rparr>"


definition testRequest :: request where
  "testRequest = \<lparr>today = ''2025-10-28'', clock = 1000, testMode = None, debugMode = False,
                   skipValidation = False, bypassCache = False\<rparr>"

definition lateRequest :: request where
  "lateRequest = testRequest\<lparr>clock := hours24 + 5\<rparr>"





definition staleRow :: cached_quiz where
  "staleRow = cacheRow 0 ''2025-10-28'' Algorithmic (generatedPayload testRequest (gridOf pool8) 1)
                None"




definition expiredStore :: store where
  "expiredStore = \<lparr>quiz_templates = [], cached_daily_quizzes = [staleRow]\<rparr>"


text \<open>
  Four players that differ in nationality and hand, and a grid whose first cell (right-handed,
  from the USA) has two of them.
\<close>

definition mkPlayer :: "string \<Rightarrow> string \<Rightarrow> string \<Rightarrow> jv" where
  "mkPlayer name nationality hand =
     JObj [(''name'', JStr name), (''nationality'', JStr nationality), (''plays_hand'', JStr hand),
           (''turned_pro'', JNum 2015),
           (''player_achievements'',
              JArr [JObj [(''result'', JStr ''winner''), (''achievement_type'', JStr ''title''),
                          (''tournaments'', JObj [(''short_name'', JStr ''Wimbledon'')])]]),
           (''player_rankings'', JArr [JObj [(''singles_ranking'', JNum 3)]])]"

definition players4 :: "jv list" where
  "players4 = [mkPlayer ''A'' ''USA'' ''right'', mkPlayer ''B'' ''USA'' ''right'',
               mkPlayer ''C'' ''ESP'' ''right'', mkPlayer ''D'' ''USA'' ''left'']"

definition rows3 :: "category list" where
  "rows3 = [mkCategory ''style'' ''right'', mkCategory ''era'' ''2020s'',
            mkCategory ''ranking'' ''top10'']"

definition cols3 :: "category list" where
  "cols3 = [mkCategory ''country'' ''USA'', mkCategory ''tournament'' ''Wimbledon'',
            mkCategory ''era'' ''2010s'']"

definition fetchAll :: "jv list \<Rightarrow> nat \<Rightarrow> nat \<Rightarrow> jv list query" where
  "fetchAll players row col = QData players"

definition grid4 :: "CellValidation list" where
  "grid4 =
     [\<lparr>cv_row = 0, cv_col = 0, playerCount = 2, cv_status = Risky,
        samplePlayers = [JStr ''A'', JStr ''B'']\<rparr>,
      \<lparr>cv_row = 0, cv_col = 1, playerCount = 3, cv_status = Safe,
        samplePlayers = [JStr ''A'', JStr ''B'', JStr ''C'']\<rparr>,
      \<lparr>cv_row = 0, cv_col = 2, playerCount = 3, cv_status = Safe,
        samplePlayers = [JStr ''A'', JStr ''B'', JStr ''C'']\<rparr>,
      \<lparr>cv_row = 1, cv_col = 0, playerCount = 3, cv_status = Safe,
        samplePlayers = [JStr ''A'', JStr ''B'', JStr ''D'']\<rparr>,
      \<lparr>cv_row = 1, cv_col = 1, playerCount = 4, cv_status = Safe,
        samplePlayers = [JStr ''A'', JStr ''B'', JStr ''C'', JStr ''D'']\<rparr>,
      \<lparr>cv_row = 1, cv_col = 2, playerCount = 4, cv_status = Safe,
        samplePlayers = [JStr ''A'', JStr ''B'', JStr ''C'', JStr ''D'']\<rparr>,
      \<lparr>cv_row = 2, cv_col = 0, playerCount = 3, cv_status = Safe,
        samplePlayers = [JStr ''A'', JStr ''B'', JStr ''D'']\<rparr>,
      \<lparr>cv_row = 2, cv_col = 1, playerCount = 4, cv_status = Safe,
        samplePlayers = [JStr ''A'', JStr ''B'', JStr ''C'', JStr ''D'']\<rparr>,
      \<lparr>cv_row = 2, cv_col = 2, playerCount = 4, cv_status = Safe,
        samplePlayers = [JStr ''A'', JStr ''B'', JStr ''C'', JStr ''D'']\<rparr>]"

definition summary4 :: validation_summary where
  "summary4 = \<lparr>totalCells = 9, validCells = 9, impossibleCells = 0, riskyCells = 1,
               safeCells = 8\<rparr>"

section \<open>Predicate evaluation\<close>

lemma validateCategory_returns: "\<exists>v. validateCategory e player category = Inr v"
  by (simp add: validateCategory_def split: sum.splits)

lemma hasYearEndNo1_value: "hasYearEndNo1 player = Inr v \<Longrightarrow> booleanOrUndefined v"
  by (auto simp: hasYearEndNo1_def booleanOrUndefined_def split: sum.splits jv.splits)

lemma validateRankingFromData_value:
  "validateRankingFromData e player t = Inr v \<Longrightarrow> booleanOrUndefined v"
  by (auto simp: validateRankingFromData_def js_or_def booleanOrUndefined_def
           dest!: hasYearEndNo1_value split: sum.splits jv.splits if_splits)

lemma validateEra_value: "validateEra e player era = Inr v \<Longrightarrow> booleanOrUndefined v"
  by (auto simp: validateEra_def Let_def booleanOrUndefined_def
           split: sum.splits option.splits if_splits)

lemma validateCategory_value:
  "validateCategory e player category = Inr v \<Longrightarrow> booleanOrUndefined v"
  unfolding validateCategory_def validateCategory_try_def
  by (auto simp: validateTournamentFromData_def validateAchievementFromData_def
           dest: validateRankingFromData_value validateEra_value
           split: sum.splits option.splits if_splits jv.splits)
     (auto simp: booleanOrUndefined_def)

text \<open>
  C10. At the public interface the promise of \<^verbatim>\<open>validateCategory\<close> is never rejected
  (lemma \<open>validateCategory_returns\<close>) and its value is a boolean or \<^verbatim>\<open>undefined\<close>
  (lemma \<open>validateCategory_value\<close>), but it is not always a boolean: for a player
  whose \<^verbatim>\<open>player_rankings\<close> is an array without a number-one ranking and whose
  \<^verbatim>\<open>player_achievements\<close> is absent, the category \<^verbatim>\<open>ranking / world_no1\<close> yields
  \<^verbatim>\<open>false || undefined\<close>, which is \<^verbatim>\<open>undefined\<close> and not \<^verbatim>\<open>false\<close>.
\<close>

theorem validateCategory_world_no1_undefined:
  "validateCategory e (JObj [(''player_rankings'', JArr [])])
     (Some \<lparr>ctype = ''ranking'', cid = ''ranking_world_no1'', clabel = ''World #1'',
            cdescription = ''Former World #1'', cvalue = ''world_no1''\<rparr>) = Inr JUndefined"
  by (simp add: validateCategory_def validateCategory_try_def validateRankingFromData_def
        hasYearEndNo1_def js_or_def)

section \<open>Cell validation fails open in the generation loop only\<close>

lemma cellLoop_returns: "\<exists>b. cellLoop e players r c = Inr b"
proof (induction players)
  case Nil
  show ?case by auto
next
  case (Cons p ps)
  obtain v where v: "validateCategory e p r = Inr v" using validateCategory_returns by blast
  obtain w where w: "validateCategory e p c = Inr w" using validateCategory_returns by blast
  show ?case using Cons v w by (cases "truthy v \<and> truthy w") auto
qed




section \<open>Tiers and overall status\<close>

lemma tier_of_count:
  "(if n = 0 then Impossible else if n < 3 then Risky else Safe) = spec_tier (n::nat)"
  by (simp add: spec_tier_def)

lemma spec_tier_zero: "spec_tier 0 = Impossible"
  by (simp add: spec_tier_def)

lemma validateCell_tier:
  "cv_status (validateCell e q r c i j) = spec_tier (playerCount (validateCell e q r c i j))"
  by (simp add: validateCell_def cellFailed_def Let_def tier_of_count spec_tier_zero
           split: query.splits sum.splits)

lemma status_of_counts:
  "(if (i::nat) > 0 then Error else if (r::nat) > 2 then Warning else if r > 0 then Good
    else Excellent) = spec_overall i r"
  by (auto simp: spec_overall_def)

lemma tier_core:
  "cv_status (validateCell e q rowCategory colCategory row col)
     = spec_tier (playerCount (validateCell e q rowCategory colCategory row col))
   \<and> overallStatus cells = spec_overall (countStatus Impossible cells) (countStatus Risky cells)"
  unfolding overallStatus_def countStatus_def Let_def status_of_counts
  by (simp add: validateCell_tier)

lemma validateCells_tiers:
  "length (validateCells e fetch rs cs) = 9
   \<and> list_all (\<lambda>c. cv_status c = spec_tier (playerCount c)) (validateCells e fetch rs cs)"
  by (simp add: validateCells_def validateCell_tier)

text \<open>
  A player that satisfies a category is neither \<^verbatim>\<open>undefined\<close> nor \<^verbatim>\<open>null\<close>, so reading
  its name does not throw: the loop of \<^verbatim>\<open>validateCell\<close> collects the names of exactly the
  players that satisfy both categories, in order.
\<close>

lemma null_player_no_match:
  "player = JUndefined \<or> player = JNull \<Longrightarrow> \<not> satisfies e player category"
  by (auto simp: satisfies_def validateCategory_def validateCategory_try_def
        validateTournamentFromData_def validateEra_def validateRankingFromData_def
        validateAchievementFromData_def split: option.splits)

lemma get_prop_defined:
  "player \<noteq> JUndefined \<Longrightarrow> player \<noteq> JNull \<Longrightarrow> get_prop player k = Inr (opt_prop player k)"
  by (cases player) (simp_all add: opt_prop_def)

lemma satisfies_name:
  "satisfies e player category \<Longrightarrow> get_prop player ''name'' = Inr (opt_prop player ''name'')"
  using null_player_no_match[of player e category] get_prop_defined by blast

lemma validPlayersLoop_matching:
  "validPlayersLoop e players rowCategory colCategory acc
     = Inr (acc @ map (\<lambda>player. opt_prop player ''name'')
                    (matchingPlayers e players rowCategory colCategory))"
proof (induction players arbitrary: acc)
  case Nil
  show ?case by (simp add: matchingPlayers_def)
next
  case (Cons p ps)
  obtain v where v: "validateCategory e p rowCategory = Inr v"
    using validateCategory_returns by blast
  obtain w where w: "validateCategory e p colCategory = Inr w"
    using validateCategory_returns by blast
  show ?case
  proof (cases "truthy v \<and> truthy w")
    case True
    then have s: "satisfies e p rowCategory" "satisfies e p colCategory"
      using v w by (simp_all add: satisfies_def)
    have n: "get_prop p ''name'' = Inr (opt_prop p ''name'')" using s(1) by (rule satisfies_name)
    show ?thesis
      using True v w n s Cons[of "acc @ [opt_prop p ''name'']"]
      by (simp add: matchingPlayers_def)
  next
    case False
    then have s: "\<not> (satisfies e p rowCategory \<and> satisfies e p colCategory)"
      using v w by (simp add: satisfies_def)
    show ?thesis
      using False v w s Cons[of acc] by (auto simp: matchingPlayers_def)
  qed
qed

lemma validateCell_counts:
  "validateCell e (QData players) rowCategory colCategory row col
     = \<lparr>cv_row = row, cv_col = col,
        playerCount = satisfyingCount e players rowCategory colCategory,
        cv_status = spec_tier (satisfyingCount e players rowCategory colCategory),
        samplePlayers = take 5 (map (\<lambda>player. opt_prop player ''name'')
                                  (matchingPlayers e players rowCategory colCategory))\<rparr>"
  by (simp add: validateCell_def validPlayersLoop_matching satisfyingCount_def Let_def
        tier_of_count)

lemma validateCells_nth:
  "row < 3 \<Longrightarrow> col < 3 \<Longrightarrow>
     validateCells e fetch rs cs ! (3 * row + col)
       = validateCell e (fetch row col) (at rs row) (at cs col) row col"
proof -
  assume "row < 3" "col < 3"
  then have "row \<in> {0, 1, 2}" "col \<in> {0, 1, 2}" by auto
  then show ?thesis by (auto simp: validateCells_def)
qed

lemma mkPlayer_style:
  "satisfies testEnv (mkPlayer n c h) (Some (mkCategory ''style'' v)) = (h = v)"
  by (simp add: satisfies_def validateCategory_def validateCategory_try_def mkPlayer_def
        mkCategory_def)

lemma mkPlayer_country:
  "satisfies testEnv (mkPlayer n c h) (Some (mkCategory ''country'' v)) = (c = v)"
  by (simp add: satisfies_def validateCategory_def validateCategory_try_def mkPlayer_def
        mkCategory_def)

lemma mkPlayer_era2020s:
  "satisfies testEnv (mkPlayer n c h) (Some (mkCategory ''era'' ''2020s''))"
  by (simp add: satisfies_def validateCategory_def validateCategory_try_def mkPlayer_def
        mkCategory_def validateEra_def eraSwitch_def js_or_def js_le_def testEnv_def)

lemma mkPlayer_era2010s:
  "satisfies testEnv (mkPlayer n c h) (Some (mkCategory ''era'' ''2010s''))"
  by (simp add: satisfies_def validateCategory_def validateCategory_try_def mkPlayer_def
        mkCategory_def validateEra_def eraSwitch_def js_or_def js_le_def testEnv_def)

lemma mkPlayer_top10:
  "satisfies testEnv (mkPlayer n c h) (Some (mkCategory ''ranking'' ''top10''))"
  by (simp add: satisfies_def validateCategory_def validateCategory_try_def mkPlayer_def
        mkCategory_def validateRankingFromData_def js_le_def)

lemma mkPlayer_wimbledon:
  "satisfies testEnv (mkPlayer n c h) (Some (mkCategory ''tournament'' ''Wimbledon''))"
  by (simp add: satisfies_def validateCategory_def validateCategory_try_def mkPlayer_def
        mkCategory_def validateTournamentFromData_def opt_prop_def)

lemma mkPlayer_name: "opt_prop (mkPlayer n c h) ''name'' = JStr n"
  by (simp add: opt_prop_def mkPlayer_def)

lemmas mkPlayer_eval = mkPlayer_style mkPlayer_country mkPlayer_era2020s mkPlayer_era2010s
  mkPlayer_top10 mkPlayer_wimbledon mkPlayer_name

lemmas cells_eval = validateCells_def validateCell_counts satisfyingCount_def
  matchingPlayers_def players4_def rows3_def cols3_def at_def spec_tier_def fetchAll_def
  mkPlayer_eval

lemma grid4_cells: "validateCells testEnv (fetchAll players4) rows3 cols3 = grid4"
  by (simp add: cells_eval grid4_def)

lemma grid4_answer:
  "validatePOST True testEnv (fetchAll players4) (Some rows3) (Some cols3)
     = Success (grid4, summary4, Good)"
proof -
  have l: "length rows3 = 3" "length cols3 = 3" by (simp_all add: rows3_def cols3_def)
  show ?thesis
    by (simp add: validatePOST_def Let_def l grid4_cells)
       (simp add: grid4_def summary4_def overallStatus_def)
qed

lemma grid3_statuses:
  "map cv_status (validateCells testEnv (fetchAll (take 3 players4)) rows3 cols3)
     = [Risky, Safe, Safe, Risky, Safe, Safe, Risky, Safe, Safe]"
  by (simp add: cells_eval)

lemma grid2_statuses:
  "map cv_status (validateCells testEnv (fetchAll (drop 2 players4)) rows3 cols3)
     = [Impossible, Risky, Risky, Risky, Risky, Risky, Risky, Risky, Risky]"
  by (simp add: cells_eval)

lemma grid1_statuses:
  "map cv_status (validateCells testEnv
        (fetchAll (mkPlayer ''E'' ''USA'' ''right'' # take 2 players4)) rows3 cols3)
     = [Safe, Safe, Safe, Safe, Safe, Safe, Safe, Safe, Safe]"
  by (simp add: cells_eval)

lemma countStatus_map:
  "countStatus s cells = length (filter (\<lambda>x. x = s) (map cv_status cells))"
  by (simp add: countStatus_def filter_map comp_def)

text \<open>
  C9. For a cell whose player query returned rows, \<^verbatim>\<open>validateCell\<close> returns as count
  the number of those rows that satisfy both categories, as tier the one the specification
  gives to that number (safe from 3, risky for 1 or 2, impossible for 0) and as sample the
  names of the first five of them. For every outcome of the query the tier of the returned
  cell is the one the specification gives to its count. The overall status of a list of
  cells is the one the specification gives to its numbers of impossible and risky cells. A
  successful answer of the validate route holds nine cells, the cell at position
  \<open>3 * i + j\<close> carries the satisfying count and the tier of the rows fetched for row
  \<open>i\<close> and column \<open>j\<close>, the summary holds the numbers of impossible and risky cells, and
  the status is the one of these numbers. (The query reads at most 500 rows; the count is
  over the rows it returned.)
\<close>

theorem tier_and_status:
  "validateCell e (QData players) rowCategory colCategory row col
     = \<lparr>cv_row = row, cv_col = col,
        playerCount = satisfyingCount e players rowCategory colCategory,
        cv_status = spec_tier (satisfyingCount e players rowCategory colCategory),
        samplePlayers = take 5 (map (\<lambda>player. opt_prop player ''name'')
                                  (matchingPlayers e players rowCategory colCategory))\<rparr>
   \<and> cv_status (validateCell e q rowCategory colCategory row col)
       = spec_tier (playerCount (validateCell e q rowCategory colCategory row col))
   \<and> overallStatus cells = spec_overall (countStatus Impossible cells) (countStatus Risky cells)
   \<and> (validatePOST admin e fetch (Some rs) (Some cs) = Success (cells', summary, status) \<longrightarrow>
        length cells' = 9
        \<and> (\<forall>i < 3. \<forall>j < 3. \<forall>ps. fetch i j = QData ps \<longrightarrow>
              playerCount (cells' ! (3 * i + j)) = satisfyingCount e ps (at rs i) (at cs j)
              \<and> cv_status (cells' ! (3 * i + j))
                  = spec_tier (satisfyingCount e ps (at rs i) (at cs j)))
        \<and> list_all (\<lambda>c. cv_status c = spec_tier (playerCount c)) cells'
        \<and> impossibleCells summary = countStatus Impossible cells'
        \<and> riskyCells summary = countStatus Risky cells'
        \<and> status = spec_overall (impossibleCells summary) (riskyCells summary))"
proof -
  have route: "validatePOST admin e fetch (Some rs) (Some cs) = Success (cells', summary, status) \<longrightarrow>
        length cells' = 9
        \<and> (\<forall>i < 3. \<forall>j < 3. \<forall>ps. fetch i j = QData ps \<longrightarrow>
              playerCount (cells' ! (3 * i + j)) = satisfyingCount e ps (at rs i) (at cs j)
              \<and> cv_status (cells' ! (3 * i + j))
                  = spec_tier (satisfyingCount e ps (at rs i) (at cs j)))
        \<and> list_all (\<lambda>c. cv_status c = spec_tier (playerCount c)) cells'
        \<and> impossibleCells summary = countStatus Impossible cells'
        \<and> riskyCells summary = countStatus Risky cells'
        \<and> status = spec_overall (impossibleCells summary) (riskyCells summary)"
  proof
    assume a: "validatePOST admin e fetch (Some rs) (Some cs) = Success (cells', summary, status)"
    then have c: "cells' = validateCells e fetch rs cs"
      and s: "status = overallStatus cells'"
      and i: "impossibleCells summary = countStatus Impossible cells'"
      and r: "riskyCells summary = countStatus Risky cells'"
      by (auto simp: validatePOST_def Let_def countStatus_def split: if_splits)
    have n: "\<forall>i < 3. \<forall>j < 3. \<forall>ps. fetch i j = QData ps \<longrightarrow>
              playerCount (cells' ! (3 * i + j)) = satisfyingCount e ps (at rs i) (at cs j)
              \<and> cv_status (cells' ! (3 * i + j))
                  = spec_tier (satisfyingCount e ps (at rs i) (at cs j))"
      unfolding c by (simp add: validateCells_nth validateCell_counts)
    have o: "status = spec_overall (impossibleCells summary) (riskyCells summary)"
      using tier_core[of e q rowCategory colCategory row col cells'] s i r by simp
    show "length cells' = 9
        \<and> (\<forall>i < 3. \<forall>j < 3. \<forall>ps. fetch i j = QData ps \<longrightarrow>
              playerCount (cells' ! (3 * i + j)) = satisfyingCount e ps (at rs i) (at cs j)
              \<and> cv_status (cells' ! (3 * i + j))
                  = spec_tier (satisfyingCount e ps (at rs i) (at cs j)))
        \<and> list_all (\<lambda>c. cv_status c = spec_tier (playerCount c)) cells'
        \<and> impossibleCells summary = countStatus Impossible cells'
        \<and> riskyCells summary = countStatus Risky cells'
        \<and> status = spec_overall (impossibleCells summary) (riskyCells summary)"
      using validateCells_tiers[of e fetch rs cs] n i r o unfolding c[symmetric] by blast
  qed
  show ?thesis
    using validateCell_counts[of e players rowCategory colCategory row col]
      tier_core[of e q rowCategory colCategory row col cells] route
    by blast
qed

theorem tier_and_status_witness:
  "validatePOST True testEnv (fetchAll players4) (Some rows3) (Some cols3)
     = Success (grid4, summary4, Good)
   \<and> playerCount (grid4 ! 0) = satisfyingCount testEnv players4 (at rows3 0) (at cols3 0)
   \<and> satisfyingCount testEnv players4 (at rows3 0) (at cols3 0) = 2
   \<and> cv_status (grid4 ! 0) = spec_tier 2 \<and> spec_tier 2 = Risky
   \<and> satisfyingCount testEnv players4 (at rows3 0) (at cols3 1) = 3
   \<and> cv_status (grid4 ! 1) = spec_tier 3 \<and> spec_tier 3 = Safe
   \<and> satisfyingCount testEnv (drop 2 players4) (at rows3 0) (at cols3 0) = 0
   \<and> cv_status (validateCell testEnv (QData (drop 2 players4)) (at rows3 0) (at cols3 0) 0 0)
       = Impossible
   \<and> Good = spec_overall 0 1
   \<and> overallStatus (validateCells testEnv (fetchAll (take 3 players4)) rows3 cols3) = Warning
   \<and> Warning = spec_overall 0 3
   \<and> overallStatus (validateCells testEnv (fetchAll (drop 2 players4)) rows3 cols3) = Error
   \<and> Error = spec_overall 1 8
   \<and> overallStatus (validateCells testEnv
         (fetchAll (mkPlayer ''E'' ''USA'' ''right'' # take 2 players4)) rows3 cols3) = Excellent
   \<and> Excellent = spec_overall 0 0"
proof -
  note t = tier_and_status[where e = testEnv and admin = True and fetch = "fetchAll players4"
      and rs = rows3 and cs = cols3 and cells' = grid4 and summary = summary4 and status = Good]
  have g: "length grid4 = 9
        \<and> (\<forall>i < 3. \<forall>j < 3. \<forall>ps. fetchAll players4 i j = QData ps \<longrightarrow>
              playerCount (grid4 ! (3 * i + j)) = satisfyingCount testEnv ps (at rows3 i) (at cols3 j)
              \<and> cv_status (grid4 ! (3 * i + j))
                  = spec_tier (satisfyingCount testEnv ps (at rows3 i) (at cols3 j)))
        \<and> Good = spec_overall (impossibleCells summary4) (riskyCells summary4)"
    using t grid4_answer by blast
  have f: "fetchAll players4 0 0 = QData players4" "fetchAll players4 0 1 = QData players4"
    by (simp_all add: fetchAll_def)
  have c00: "playerCount (grid4 ! 0) = satisfyingCount testEnv players4 (at rows3 0) (at cols3 0)"
    and s00: "cv_status (grid4 ! 0)
                = spec_tier (satisfyingCount testEnv players4 (at rows3 0) (at cols3 0))"
    using g f(1) by force+
  have s01: "cv_status (grid4 ! 1)
                = spec_tier (satisfyingCount testEnv players4 (at rows3 0) (at cols3 1))"
    using g f(2) by force
  have n00: "satisfyingCount testEnv players4 (at rows3 0) (at cols3 0) = 2"
    and n01: "satisfyingCount testEnv players4 (at rows3 0) (at cols3 1) = 3"
    and n2: "satisfyingCount testEnv (drop 2 players4) (at rows3 0) (at cols3 0) = 0"
    by (simp_all add: cells_eval)
  have tiers: "spec_tier 2 = Risky" "spec_tier 3 = Safe" by (simp_all add: spec_tier_def)
  have imp: "cv_status (validateCell testEnv (QData (drop 2 players4)) (at rows3 0) (at cols3 0) 0 0)
               = Impossible"
    using tier_and_status[where e = testEnv and players = "drop 2 players4"
        and rowCategory = "at rows3 0" and colCategory = "at cols3 0" and row = 0 and col = 0] n2
    by (simp add: spec_tier_def)
  have good: "Good = spec_overall 0 1" using g by (simp add: summary4_def)
  note o = tier_and_status[where e = testEnv and players = "[]" and rowCategory = None
      and colCategory = None and row = 0 and col = 0 and q = QNull and admin = True
      and fetch = "fetchAll []" and rs = "[]" and cs = "[]" and cells' = "[]"
      and summary = summary4 and status = Good]
  have w: "overallStatus (validateCells testEnv (fetchAll (take 3 players4)) rows3 cols3)
             = Warning"
    using o[where cells = "validateCells testEnv (fetchAll (take 3 players4)) rows3 cols3"]
    by (simp add: countStatus_map grid3_statuses spec_overall_def)
  have er: "overallStatus (validateCells testEnv (fetchAll (drop 2 players4)) rows3 cols3)
             = Error"
    using o[where cells = "validateCells testEnv (fetchAll (drop 2 players4)) rows3 cols3"]
    by (simp add: countStatus_map grid2_statuses spec_overall_def)
  have ex: "overallStatus (validateCells testEnv
         (fetchAll (mkPlayer ''E'' ''USA'' ''right'' # take 2 players4)) rows3 cols3)
             = Excellent"
    using o[where cells = "validateCells testEnv
         (fetchAll (mkPlayer ''E'' ''USA'' ''right'' # take 2 players4)) rows3 cols3"]
    by (simp add: countStatus_map grid1_statuses spec_overall_def)
  have so: "Warning = spec_overall 0 3" "Error = spec_overall 1 8" "Excellent = spec_overall 0 0"
    by (simp_all add: spec_overall_def)
  show ?thesis
    using grid4_answer c00 s00 s01 n00 n01 n2 tiers imp good w er ex so by simp
qed

section \<open>The selection\<close>

lemma onlyPrints_refl: "onlyPrints w w"
  by (simp add: onlyPrints_def)

lemma onlyPrints_log: "onlyPrints w (consoleLog line w)"
  by (simp add: onlyPrints_def consoleLog_def)

lemma onlyPrints_trans:
  assumes "onlyPrints w w'" "onlyPrints w' w''"
  shows "onlyPrints w w''"
proof -
  have l: "length (console w) \<le> length (console w')"
  proof -
    have "length (take (length (console w)) (console w')) = length (console w)"
      using assms(1) by (simp add: onlyPrints_def)
    then show ?thesis by simp
  qed
  have "take (length (console w)) (console w'')
          = take (length (console w)) (take (length (console w')) (console w''))"
    using l by (simp add: min_def)
  also have "\<dots> = console w" using assms by (simp add: onlyPrints_def)
  finally show ?thesis using assms by (simp add: onlyPrints_def)
qed

lemma pickLoop_run_pure:
  "fst (pickLoop_run sinHash seed ax i pool tries (st, w))
     = pickLoop sinHash seed ax i pool tries st
   \<and> onlyPrints w (snd (pickLoop_run sinHash seed ax i pool tries (st, w)))"
proof (induction sinHash seed ax i pool tries "(st, w)" rule: pickLoop_run.induct)
  case (1 sinHash seed ax i pool tries)
  show ?case
  proof (cases "tries < 100 \<and> length pool > 0")
    case False
    have a: "pickLoop_run sinHash seed ax i pool tries (st, w) = (st, w)"
      using False by (subst pickLoop_run.simps) auto
    have b: "pickLoop sinHash seed ax i pool tries st = st"
      using False by (subst pickLoop.simps) auto
    show ?thesis unfolding a b by (simp add: onlyPrints_refl)
  next
    case True
    let ?c = "pool ! pseudoRandom sinHash seed (length pool) (slotOffset ax i + tries)"
    show ?thesis
    proof (cases "cid ?c \<notin> usedIds st")
      case u: True
      have a: "pickLoop_run sinHash seed ax i pool tries (st, w)
                 = (accept ax ?c st, consoleLog (LogPick ax (i + 1) (ctype ?c) (clabel ?c)) w)"
        using True u by (subst pickLoop_run.simps) (simp add: Let_def)
      have b: "pickLoop sinHash seed ax i pool tries st = accept ax ?c st"
        using True u by (subst pickLoop.simps) (simp add: Let_def)
      show ?thesis unfolding a b by (simp add: onlyPrints_log)
    next
      case u: False
      have ih: "fst (pickLoop_run sinHash seed ax i pool (tries + 1) (st, w))
                  = pickLoop sinHash seed ax i pool (tries + 1) st
                \<and> onlyPrints w (snd (pickLoop_run sinHash seed ax i pool (tries + 1) (st, w)))"
        using 1[OF True refl refl] u by simp
      have a: "pickLoop_run sinHash seed ax i pool tries (st, w)
                 = pickLoop_run sinHash seed ax i pool (tries + 1) (st, w)"
        using True u by (subst pickLoop_run.simps) (simp add: Let_def)
      have b: "pickLoop sinHash seed ax i pool tries st
                 = pickLoop sinHash seed ax i pool (tries + 1) st"
        using True u by (subst pickLoop.simps) (simp add: Let_def)
      show ?thesis unfolding a b using ih .
    qed
  qed
qed

lemma selectSlot_run_pure:
  "fst (selectSlot_run sinHash allCategories seed ax i s)
     = selectSlot sinHash allCategories seed ax i (fst s)
   \<and> onlyPrints (snd s) (snd (selectSlot_run sinHash allCategories seed ax i s))"
proof -
  obtain st w where s: "s = (st, w)" by (cases s)
  let ?pool = "filter (\<lambda>c. if cid c \<in> usedIds st then False
                              else if ctype c = ''country'' \<and> axisHasCountry ax st then False
                              else True)
                 (if i < 2 then safeCategories allCategories
                  else safeCategories allCategories @ riskyCategories allCategories)"
  let ?fallback = "filter (\<lambda>c. cid c \<notin> usedIds st
                               \<and> \<not> (ctype c = ''country'' \<and> axisHasCountry ax st))
                     allCategories"
  show ?thesis
  proof (cases "length ?pool = 0")
    case True
    have r: "selectSlot_run sinHash allCategories seed ax i s
               = pickLoop_run sinHash seed ax i ?fallback 0
                   (st, consoleLog (WarnFallback ax (i + 1)) w)"
      using True by (simp add: selectSlot_run_def s Let_def)
    have p: "selectSlot sinHash allCategories seed ax i st
               = pickLoop sinHash seed ax i ?fallback 0 st"
      using True by (simp add: selectSlot_def slotPool_def Let_def)
    note l = pickLoop_run_pure[of sinHash seed ax i ?fallback 0 st
          "consoleLog (WarnFallback ax (i + 1)) w"]
    have o: "onlyPrints w (snd (pickLoop_run sinHash seed ax i ?fallback 0
                                  (st, consoleLog (WarnFallback ax (i + 1)) w)))"
      by (rule onlyPrints_trans[OF onlyPrints_log]) (use l in blast)
    show ?thesis unfolding r using p s l o by simp
  next
    case False
    have r: "selectSlot_run sinHash allCategories seed ax i s
               = pickLoop_run sinHash seed ax i ?pool 0 (st, w)"
      using False by (simp add: selectSlot_run_def s Let_def)
    have p: "selectSlot sinHash allCategories seed ax i st
               = pickLoop sinHash seed ax i ?pool 0 st"
      using False by (simp add: selectSlot_def slotPool_def Let_def)
    show ?thesis
      unfolding r using p s pickLoop_run_pure[of sinHash seed ax i ?pool 0 st w] by simp
  qed
qed

lemma selectAxis_run_pure:
  "fst (selectAxis_run sinHash allCategories seed ax s)
     = selectAxis sinHash allCategories seed ax (fst s)
   \<and> onlyPrints (snd s) (snd (selectAxis_run sinHash allCategories seed ax s))"
proof -
  let ?f = "selectSlot_run sinHash allCategories seed ax"
  note a = selectSlot_run_pure[of sinHash allCategories seed ax 0 s]
  note b = selectSlot_run_pure[of sinHash allCategories seed ax 1 "?f 0 s"]
  note c = selectSlot_run_pure[of sinHash allCategories seed ax 2 "?f 1 (?f 0 s)"]
  have ab: "onlyPrints (snd s) (snd (?f 1 (?f 0 s)))"
    by (rule onlyPrints_trans[of _ "snd (?f 0 s)"]) (use a b in blast)+
  have p: "onlyPrints (snd s) (snd (?f 2 (?f 1 (?f 0 s))))"
    by (rule onlyPrints_trans[OF ab]) (use c in blast)
  show ?thesis
    using a b c p by (simp add: selectAxis_run_def selectAxis_def)
qed

lemma selectSmartCategories_run_pure:
  "fst (selectSmartCategories_run sinHash w allCategories seed debug)
     = selectSmartCategories sinHash allCategories seed debug
   \<and> onlyPrints w (snd (selectSmartCategories_run sinHash w allCategories seed debug))"
proof -
  let ?w0 = "consoleLog (LogPools (length (safeCategories allCategories))
                                   (length (riskyCategories allCategories))) w"
  let ?r = "selectAxis_run sinHash allCategories seed RowAxis (initialSelection, ?w0)"
  let ?s = "selectAxis_run sinHash allCategories seed ColAxis ?r"
  note a = selectAxis_run_pure[of sinHash allCategories seed RowAxis "(initialSelection, ?w0)"]
  note b = selectAxis_run_pure[of sinHash allCategories seed ColAxis ?r]
  have f: "fst ?s = selectAxis sinHash allCategories seed ColAxis
                      (selectRows sinHash allCategories seed)"
    using a b by (simp add: selectRows_def)
  have a': "onlyPrints ?w0 (snd ?r)" using a by simp
  have b': "onlyPrints (snd ?r) (snd ?s)" using b by blast
  have p: "onlyPrints w (snd ?s)"
    by (rule onlyPrints_trans[OF onlyPrints_log], rule onlyPrints_trans[OF a' b'])
  have q: "onlyPrints w (consoleLog l2 (consoleLog l1 (snd ?s)))" for l1 l2
    by (rule onlyPrints_trans[OF p], rule onlyPrints_trans[OF onlyPrints_log onlyPrints_log])
  show ?thesis
    using f p q by (simp add: selectSmartCategories_run_def selectSmartCategories_def Let_def)
qed

lemma suggest_run_pure:
  "suggest_selectSmartCategories_run sinHash w allCategories seed
     = (suggest_selectSmartCategories sinHash allCategories seed, w)"
  by (simp add: suggest_selectSmartCategories_run_def suggest_selectSmartCategories_def)

lemma suggest_same_text:
  "suggest_selectSmartCategories sinHash allCategories seed
     = selectSmartCategories sinHash allCategories seed debug"
  by (simp add: selectSmartCategories_def suggest_selectSmartCategories_def selectRows_def)

lemma alternatives_pure:
  "snd (alternatives sinHash allCategories baseSeed n w) = w
   \<and> fst (alternatives sinHash allCategories baseSeed n w)
       = fst (alternatives sinHash allCategories baseSeed n w')"
proof (induction n)
  case 0
  show ?case by simp
next
  case (Suc n)
  obtain alts where a: "alternatives sinHash allCategories baseSeed n w = (alts, w)"
    using Suc by (metis prod.collapse)
  have a': "alternatives sinHash allCategories baseSeed n w'
              = (alts, snd (alternatives sinHash allCategories baseSeed n w'))"
    using Suc a by (metis fst_conv prod.collapse)
  show ?case
    by (simp add: a suggest_run_pure Let_def) (subst a', simp add: suggest_run_pure)
qed

lemma suggestGET_seed:
  "suggestGET admin sinHash w (Some seed) n pool = suggestGET admin sinHash w' (Some seed) n pool"
proof -
  have "fst (alternatives sinHash allCategories seed n w)
          = fst (alternatives sinHash allCategories seed n w')" for allCategories
    using alternatives_pure by blast
  then show ?thesis
    by (simp add: suggestGET_def suggest_run_pure Let_def split_beta split: option.splits)
qed

lemma suggestGET_clock:
  "suggestGET admin sinHash w None n pool
     = suggestGET admin sinHash w' (Some (wallClock w)) n pool"
proof -
  have "fst (alternatives sinHash allCategories (wallClock w) n w)
          = fst (alternatives sinHash allCategories (wallClock w) n w')" for allCategories
    using alternatives_pure by blast
  then show ?thesis
    by (simp add: suggestGET_def suggest_run_pure Let_def split_beta split: option.splits)
qed

text \<open>
  C3. Two calls of \<^verbatim>\<open>selectSmartCategories\<close> on the same pool and seed return the same
  list, whatever the runtime of each call (the clock, the random generator, what has been
  printed) and whatever the debug flag; also when the second call runs in the runtime that
  the first call left behind. A call changes the runtime only by printing. The result is
  the list that the definitions of the selector section compute, and the copy in the
  suggest-categories route returns the same list and prints nothing. The suggest route reads
  the clock only to choose the seed when the request gives none: with a seed parameter its
  answer does not depend on the runtime, and without one it is the answer for the seed
  equal to the clock. The runtime of each call is arbitrary, so this holds after any number
  of earlier calls. (The sine is the parameter \<open>sinHash\<close>, a function of its argument.)
\<close>

theorem selection_deterministic:
  "fst (selectSmartCategories_run sinHash w allCategories seed debug)
     = fst (selectSmartCategories_run sinHash w' allCategories seed debug')
   \<and> fst (selectSmartCategories_run sinHash
             (snd (selectSmartCategories_run sinHash w allCategories seed debug))
             allCategories seed debug')
       = fst (selectSmartCategories_run sinHash w allCategories seed debug)
   \<and> onlyPrints w (snd (selectSmartCategories_run sinHash w allCategories seed debug))
   \<and> fst (selectSmartCategories_run sinHash w allCategories seed debug)
       = selectSmartCategories sinHash allCategories seed debug
   \<and> suggest_selectSmartCategories_run sinHash w allCategories seed
       = (fst (selectSmartCategories_run sinHash w' allCategories seed debug), w)
   \<and> suggestGET admin sinHash w (Some seed) n pool
       = suggestGET admin sinHash w' (Some seed) n pool
   \<and> suggestGET admin sinHash w None n pool
       = suggestGET admin sinHash w' (Some (wallClock w)) n pool"
proof -
  have r: "fst (selectSmartCategories_run sinHash v allCategories seed d)
             = selectSmartCategories sinHash allCategories seed False" for v d
    using selectSmartCategories_run_pure[of sinHash v allCategories seed d]
    by (simp add: selectSmartCategories_def)
  have p: "selectSmartCategories sinHash allCategories seed debug
             = selectSmartCategories sinHash allCategories seed False"
    by (simp add: selectSmartCategories_def)
  have o: "onlyPrints w (snd (selectSmartCategories_run sinHash w allCategories seed debug))"
    using selectSmartCategories_run_pure by blast
  have s: "suggest_selectSmartCategories_run sinHash w allCategories seed
       = (fst (selectSmartCategories_run sinHash w' allCategories seed debug), w)"
    unfolding r suggest_run_pure suggest_same_text[of sinHash allCategories seed False] ..
  show ?thesis
    unfolding r p using o s[unfolded r] suggestGET_seed suggestGET_clock by blast
qed

lemma pseudoRandom_less: "0 < m \<Longrightarrow> pseudoRandom h seed m off < m"
  by (simp add: pseudoRandom_def)

lemma pickLoop_cases:
  "pickLoop h seed ax i pool n st = st
   \<or> (\<exists>c \<in> set pool. cid c \<notin> usedIds st \<and> pickLoop h seed ax i pool n st = accept ax c st)"
proof (induction h seed ax i pool n st rule: pickLoop.induct)
  case (1 h seed ax i pool n st)
  show ?case
  proof (cases "n < 100 \<and> length pool > 0")
    case False
    then show ?thesis by (subst pickLoop.simps) auto
  next
    case True
    define c where "c = pool ! pseudoRandom h seed (length pool) (slotOffset ax i + n)"
    have cin: "c \<in> set pool"
      unfolding c_def using True by (simp add: pseudoRandom_less)
    show ?thesis
    proof (cases "cid c \<notin> usedIds st")
      case True
      have "pickLoop h seed ax i pool n st = accept ax c st"
        using \<open>n < 100 \<and> length pool > 0\<close> True
        by (subst pickLoop.simps) (simp add: c_def Let_def)
      with cin True show ?thesis by blast
    next
      case False
      have eq: "pickLoop h seed ax i pool n st = pickLoop h seed ax i pool (n + 1) st"
        using \<open>n < 100 \<and> length pool > 0\<close> False
        by (subst pickLoop.simps) (simp add: c_def Let_def)
      have "pickLoop h seed ax i pool (n + 1) st = st
         \<or> (\<exists>c \<in> set pool. cid c \<notin> usedIds st
              \<and> pickLoop h seed ax i pool (n + 1) st = accept ax c st)"
        using "1.IH"[OF \<open>n < 100 \<and> length pool > 0\<close> refl refl] False
        by (simp add: c_def)
      then show ?thesis by (simp add: eq)
    qed
  qed
qed

lemma slotPool_mem:
  "c \<in> set (slotPool allCategories ax i st) \<Longrightarrow>
     cid c \<notin> usedIds st \<and> \<not> (ctype c = ''country'' \<and> axisHasCountry ax st)"
  by (auto simp: slotPool_def Let_def split: if_splits)

lemma selectSlot_cases:
  "selectSlot h allCategories seed ax i st = st
   \<or> (\<exists>c. cid c \<notin> usedIds st \<and> \<not> (ctype c = ''country'' \<and> axisHasCountry ax st)
          \<and> selectSlot h allCategories seed ax i st = accept ax c st)"
  unfolding selectSlot_def
  using pickLoop_cases[of h seed ax i "slotPool allCategories ax i st" 0 st] slotPool_mem
  by blast

lemma axisOk_accept:
  assumes "axisOk ax k st" "cid c \<notin> usedIds st"
    "\<not> (ctype c = ''country'' \<and> axisHasCountry ax st)"
  shows "axisOk ax k (accept ax c st)"
proof (cases "ctype c = ''country''")
  case True
  with assms(3) have nohas: "\<not> axisHasCountry ax st" by simp
  with assms(1) have zero: "countryCount (drop k (selected st)) = 0"
    by (auto simp: axisOk_def)
  show ?thesis
    using assms(1,2) True zero
    by (cases ax) (auto simp: axisOk_def accept_def Let_def countryCount_def axisHasCountry_def)
next
  case False
  then show ?thesis
    using assms(1,2)
    by (cases ax) (auto simp: axisOk_def accept_def Let_def countryCount_def axisHasCountry_def)
qed

lemma axisOk_selectSlot:
  "axisOk ax k st \<Longrightarrow> axisOk ax k (selectSlot h allCategories seed ax i st)"
  using selectSlot_cases[of h allCategories seed ax i st] axisOk_accept by metis

lemma selected_accept: "selected (accept ax c st) = selected st @ [c]"
  by (cases ax) (simp_all add: accept_def Let_def)

lemma selectSlot_grows:
  "\<exists>picks. selected (selectSlot h allCategories seed ax i st) = selected st @ picks
            \<and> length picks \<le> 1"
  using selectSlot_cases[of h allCategories seed ax i st]
  by (auto simp: selected_accept)

lemma selectAxis_grows:
  "\<exists>picks. selected (selectAxis h allCategories seed ax st) = selected st @ picks
            \<and> length picks \<le> 3"
proof -
  let ?s1 = "selectSlot h allCategories seed ax 0 st"
  let ?s2 = "selectSlot h allCategories seed ax 1 ?s1"
  let ?s3 = "selectSlot h allCategories seed ax 2 ?s2"
  obtain p1 where p1: "selected ?s1 = selected st @ p1" "length p1 \<le> 1"
    using selectSlot_grows by blast
  obtain p2 where p2: "selected ?s2 = selected ?s1 @ p2" "length p2 \<le> 1"
    using selectSlot_grows by blast
  obtain p3 where p3: "selected ?s3 = selected ?s2 @ p3" "length p3 \<le> 1"
    using selectSlot_grows by blast
  have "selected ?s3 = selected st @ (p1 @ p2 @ p3)" "length (p1 @ p2 @ p3) \<le> 3"
    using p1 p2 p3 by simp_all
  then show ?thesis
    unfolding selectAxis_def by (metis fold_simps(1) fold_simps(2))
qed

lemma axisOk_selectAxis:
  "axisOk ax k st \<Longrightarrow> axisOk ax k (selectAxis h allCategories seed ax st)"
  by (simp add: selectAxis_def axisOk_selectSlot)

lemma axisOk_initial: "axisOk RowAxis 0 initialSelection"
  by (simp add: axisOk_def initialSelection_def countryCount_def)

lemma axisOk_rows: "axisOk RowAxis 0 (selectRows h allCategories seed)"
  unfolding selectRows_def by (rule axisOk_selectAxis[OF axisOk_initial])

lemma colHasCountry_accept_row: "colHasCountry (accept RowAxis c st) = colHasCountry st"
  by (simp add: accept_def Let_def)

lemma colHasCountry_selectSlot_row:
  "colHasCountry (selectSlot h allCategories seed RowAxis i st) = colHasCountry st"
  using selectSlot_cases[of h allCategories seed RowAxis i st]
  by (auto simp: colHasCountry_accept_row)

lemma colHasCountry_rows: "\<not> colHasCountry (selectRows h allCategories seed)"
  by (simp add: selectRows_def selectAxis_def colHasCountry_selectSlot_row initialSelection_def)

lemma axisOk_cols_start:
  "axisOk ColAxis (length (selected (selectRows h allCategories seed)))
     (selectRows h allCategories seed)"
  using axisOk_rows[of h allCategories seed]
  by (simp add: axisOk_def countryCount_def)

lemma selection_core:
  "distinct (map cid (selectSmartCategories h allCategories seed debug))
   \<and> selectSmartCategories h allCategories seed debug
       = rowSelection h allCategories seed @ colSelection h allCategories seed
   \<and> length (rowSelection h allCategories seed) \<le> 3
   \<and> length (colSelection h allCategories seed) \<le> 3
   \<and> countryCount (rowSelection h allCategories seed) \<le> 1
   \<and> countryCount (colSelection h allCategories seed) \<le> 1"
proof -
  let ?rows = "selectRows h allCategories seed"
  let ?fin = "selectAxis h allCategories seed ColAxis ?rows"
  have ok: "axisOk ColAxis (length (selected ?rows)) ?fin"
    by (rule axisOk_selectAxis[OF axisOk_cols_start])
  obtain picks where picks: "selected ?fin = selected ?rows @ picks" "length picks \<le> 3"
    using selectAxis_grows by blast
  obtain rpicks where rp: "selected ?rows = selected initialSelection @ rpicks" "length rpicks \<le> 3"
    unfolding selectRows_def using selectAxis_grows by blast
  have col: "colSelection h allCategories seed = picks"
    by (simp add: colSelection_def rowSelection_def selectSmartCategories_def picks)
  have "distinct (map cid (selected ?fin))" using ok by (simp add: axisOk_def)
  moreover have "selected ?fin = rowSelection h allCategories seed @ colSelection h allCategories seed"
    by (simp add: col rowSelection_def picks)
  moreover have "length (rowSelection h allCategories seed) \<le> 3"
    using rp by (simp add: rowSelection_def initialSelection_def)
  moreover have "length (colSelection h allCategories seed) \<le> 3"
    using picks col by simp
  moreover have "countryCount (rowSelection h allCategories seed) \<le> 1"
    using axisOk_rows[of h allCategories seed] by (simp add: axisOk_def rowSelection_def)
  moreover have "countryCount (colSelection h allCategories seed) \<le> 1"
    using ok by (simp add: axisOk_def col picks)
  ultimately show ?thesis by (simp add: selectSmartCategories_def)
qed

lemma gridOf_slots:
  assumes "picks = rows @ cols" "length rows = 3" "length cols \<le> 3"
  shows "q_rows (gridOf picks) = rows \<and> q_columns (gridOf picks) = cols"
  using assms by (simp add: gridOf_def)

text \<open>
  A pool with six safe categories of distinct ids that are not countries fills all six
  slots. The pool of the daily-quiz route always holds the four eras and the two rankings.
\<close>

lemma unused_safe_exists:
  assumes six: "6 \<le> length (safeNonCountryIds allCategories)"
    and tr: "tracked st" and len: "length (selected st) \<le> 5"
  shows "\<exists>c \<in> set allCategories. isSafe c \<and> ctype c \<noteq> ''country'' \<and> cid c \<notin> usedIds st"
proof (rule ccontr)
  assume neg: "\<not> ?thesis"
  let ?ids = "set (safeNonCountryIds allCategories)"
  have sub: "?ids \<subseteq> usedIds st"
    using neg by (auto simp: safeNonCountryIds_def)
  have fin: "finite (usedIds st)" using tr by (simp add: tracked_def)
  have "distinct (safeNonCountryIds allCategories)"
    by (simp add: safeNonCountryIds_def)
  then have "card ?ids = length (safeNonCountryIds allCategories)"
    by (rule distinct_card)
  moreover have "card ?ids \<le> card (usedIds st)" using sub fin by (rule card_mono[rotated])
  moreover have "card (usedIds st) \<le> length (selected st)"
  proof -
    have "card (set (map cid (selected st))) \<le> length (map cid (selected st))"
      by (rule card_length)
    then show ?thesis using tr by (simp add: tracked_def)
  qed
  ultimately show False using six len by simp
qed

lemma slotPool_nonempty:
  assumes "c \<in> set allCategories" "isSafe c" "ctype c \<noteq> ''country''" "cid c \<notin> usedIds st"
  shows "slotPool allCategories ax i st \<noteq> []"
proof -
  let ?keep = "\<lambda>c. if cid c \<in> usedIds st then False
                    else if ctype c = ''country'' \<and> axisHasCountry ax st then False else True"
  have k: "?keep c" using assms by simp
  have m: "c \<in> set (safeCategories allCategories)"
    using assms by (simp add: safeCategories_def)
  have m2: "c \<in> set (if i < 2 then safeCategories allCategories
                    else safeCategories allCategories @ riskyCategories allCategories)"
    using m by simp
  have "c \<in> set (filter ?keep (if i < 2 then safeCategories allCategories
                    else safeCategories allCategories @ riskyCategories allCategories))"
    using k m2 unfolding set_filter by blast
  then have ne: "filter ?keep (if i < 2 then safeCategories allCategories
                    else safeCategories allCategories @ riskyCategories allCategories) \<noteq> []"
    by (metis empty_iff list.set(1))
  show ?thesis
    unfolding slotPool_def Let_def using ne by simp
qed

lemma pickLoop_first:
  assumes "pool \<noteq> []" "\<forall>c \<in> set pool. cid c \<notin> usedIds st"
  shows "\<exists>c \<in> set pool. pickLoop h seed ax i pool 0 st = accept ax c st"
proof -
  let ?c = "pool ! pseudoRandom h seed (length pool) (slotOffset ax i + 0)"
  have cin: "?c \<in> set pool" using assms(1) by (simp add: pseudoRandom_less)
  then have "cid ?c \<notin> usedIds st" using assms(2) by blast
  then have "pickLoop h seed ax i pool 0 st = accept ax ?c st"
    using assms(1) by (subst pickLoop.simps) (simp add: Let_def)
  with cin show ?thesis by blast
qed

lemma selectSlot_fills:
  assumes "6 \<le> length (safeNonCountryIds allCategories)" "tracked st"
    "length (selected st) \<le> 5"
  shows "\<exists>c. selectSlot h allCategories seed ax i st = accept ax c st"
proof -
  obtain c where c: "c \<in> set allCategories" "isSafe c" "ctype c \<noteq> ''country''"
      "cid c \<notin> usedIds st"
    using unused_safe_exists[OF assms] by blast
  have ne: "slotPool allCategories ax i st \<noteq> []" using slotPool_nonempty[OF c] .
  have "\<forall>c \<in> set (slotPool allCategories ax i st). cid c \<notin> usedIds st"
    using slotPool_mem by blast
  from pickLoop_first[OF ne this] show ?thesis
    unfolding selectSlot_def by blast
qed

lemma tracked_accept: "tracked st \<Longrightarrow> tracked (accept ax c st)"
  by (cases ax) (auto simp: tracked_def accept_def Let_def)

lemma selectSlot_step:
  assumes "6 \<le> length (safeNonCountryIds allCategories)" "tracked st"
    "length (selected st) \<le> 5"
  shows "tracked (selectSlot h allCategories seed ax i st)
         \<and> length (selected (selectSlot h allCategories seed ax i st)) = length (selected st) + 1"
proof -
  obtain c where "selectSlot h allCategories seed ax i st = accept ax c st"
    using selectSlot_fills[OF assms] by blast
  then show ?thesis using assms(2) by (simp add: tracked_accept selected_accept)
qed

lemma selectAxis_step:
  assumes six: "6 \<le> length (safeNonCountryIds allCategories)" and tr: "tracked st"
    and len: "length (selected st) \<le> 3"
  shows "tracked (selectAxis h allCategories seed ax st)
         \<and> length (selected (selectAxis h allCategories seed ax st)) = length (selected st) + 3"
proof -
  let ?s1 = "selectSlot h allCategories seed ax 0 st"
  let ?s2 = "selectSlot h allCategories seed ax 1 ?s1"
  let ?s3 = "selectSlot h allCategories seed ax 2 ?s2"
  have 1: "tracked ?s1 \<and> length (selected ?s1) = length (selected st) + 1"
    using selectSlot_step[OF six tr] len by simp
  then have 2: "tracked ?s2 \<and> length (selected ?s2) = length (selected st) + 2"
    using selectSlot_step[OF six, of ?s1 h seed ax 1] len by simp
  then have 3: "tracked ?s3 \<and> length (selected ?s3) = length (selected st) + 3"
    using selectSlot_step[OF six, of ?s2 h seed ax 2] len by simp
  then show ?thesis by (simp add: selectAxis_def)
qed

lemma selection_complete:
  assumes six: "6 \<le> length (safeNonCountryIds allCategories)"
  shows "length (rowSelection h allCategories seed) = 3
         \<and> length (selectSmartCategories h allCategories seed debug) = 6"
proof -
  have t0: "tracked initialSelection" by (simp add: tracked_def initialSelection_def)
  have r: "tracked (selectRows h allCategories seed)
           \<and> length (selected (selectRows h allCategories seed)) = 3"
    using selectAxis_step[OF six t0, of h seed RowAxis]
    by (simp add: selectRows_def initialSelection_def)
  then have "length (selected (selectAxis h allCategories seed ColAxis
                (selectRows h allCategories seed))) = 6"
    using selectAxis_step[OF six, of "selectRows h allCategories seed" h seed ColAxis] by simp
  with r show ?thesis by (simp add: rowSelection_def selectSmartCategories_def)
qed

lemma pool8_six: "6 \<le> length (safeNonCountryIds pool8)"
  by (simp add: safeNonCountryIds_def pool8_def mkCategory_def isSafe_def)

text \<open>
  C4. For every pool and seed the ids of the selection are pairwise distinct, the row
  slots choose at most one country and the column slots choose at most one country; the
  fallback pool of a slot keeps the country exclusion. The result is the choices of the row
  slots followed by those of the column slots, at most three each, so when the three row
  slots are filled the rows and columns of the grid are exactly these choices.
\<close>

theorem selection_invariants:
  "distinct (map cid (selectSmartCategories h allCategories seed debug))
   \<and> selectSmartCategories h allCategories seed debug
       = rowSelection h allCategories seed @ colSelection h allCategories seed
   \<and> length (rowSelection h allCategories seed) \<le> 3
   \<and> length (colSelection h allCategories seed) \<le> 3
   \<and> countryCount (rowSelection h allCategories seed) \<le> 1
   \<and> countryCount (colSelection h allCategories seed) \<le> 1
   \<and> (length (rowSelection h allCategories seed) = 3 \<longrightarrow>
        q_rows (gridOf (selectSmartCategories h allCategories seed debug))
          = rowSelection h allCategories seed
        \<and> q_columns (gridOf (selectSmartCategories h allCategories seed debug))
          = colSelection h allCategories seed)"
  using selection_core[of h allCategories seed debug] gridOf_slots by blast

theorem selection_invariants_witness:
  "length (rowSelection testHash pool8 42) = 3
   \<and> distinct (map cid (selectSmartCategories testHash pool8 42 False))
   \<and> countryCount (q_rows (gridOf (selectSmartCategories testHash pool8 42 False))) \<le> 1
   \<and> countryCount (q_columns (gridOf (selectSmartCategories testHash pool8 42 False))) \<le> 1"
proof -
  have r: "length (rowSelection testHash pool8 42) = 3"
    using selection_complete[OF pool8_six] by blast
  note t = selection_invariants[of testHash pool8 42 False]
  have d: "distinct (map cid (selectSmartCategories testHash pool8 42 False))"
    using t by blast
  have c: "countryCount (rowSelection testHash pool8 42) \<le> 1"
    "countryCount (colSelection testHash pool8 42) \<le> 1"
    using t by blast+
  have g: "q_rows (gridOf (selectSmartCategories testHash pool8 42 False))
             = rowSelection testHash pool8 42"
    "q_columns (gridOf (selectSmartCategories testHash pool8 42 False))
             = colSelection testHash pool8 42"
    using t r by blast+
  show ?thesis unfolding g using r d c by blast
qed

section \<open>The generation loop\<close>

















section \<open>The cache table\<close>

lemma single_Some: "single rows = Some r \<Longrightarrow> rows = [r]"
  by (cases rows rule: list.exhaust; cases "tl rows") (auto simp: single_def split: list.splits)

lemma getCachedQuiz_fresh:
  assumes "getCachedQuiz fails now date table = Some r"
  shows "r \<in> set table \<and> c_date r = date \<and> now < c_expires_at r"
proof -
  from assms have "filter (\<lambda>r. c_date r = date \<and> c_expires_at r > now) table = [r]"
    by (auto simp: getCachedQuiz_def split: if_splits dest: single_Some)
  then have "r \<in> set (filter (\<lambda>r. c_date r = date \<and> c_expires_at r > now) table)" by simp
  then show ?thesis by simp
qed

lemma getCachedQuiz_expired:
  assumes "\<forall>r \<in> set table. c_date r = date \<longrightarrow> c_expires_at r \<le> now"
  shows "getCachedQuiz fails now date table = None"
proof -
  have "filter (\<lambda>r. c_date r = date \<and> c_expires_at r > now) table = []"
    using assms by (auto simp: filter_empty_conv)
  then show ?thesis by (simp add: getCachedQuiz_def single_def)
qed

lemma absent_date:
  "c_date row \<notin> set (map c_date table) \<Longrightarrow> r \<in> set table \<Longrightarrow> c_date r \<noteq> c_date row"
  by (metis imageI set_map)

lemma upsert_dates_present:
  assumes "c_date row \<in> set (map c_date table)"
  shows "map c_date (upsert row table) = map c_date table"
proof -
  have ex: "list_ex (\<lambda>r. c_date r = c_date row) table"
    using assms by (auto simp: list_ex_iff)
  have "map c_date (map (\<lambda>r. if c_date r = c_date row then row else r) table) = map c_date table"
    by (induction table) auto
  then show ?thesis using ex by (simp add: upsert_def)
qed

lemma onePerDate_upsert: "onePerDate table \<Longrightarrow> onePerDate (upsert row table)"
proof (cases "c_date row \<in> set (map c_date table)")
  case True
  assume "onePerDate table"
  then show ?thesis using upsert_dates_present[OF True] by (simp add: onePerDate_def)
next
  case False
  assume "onePerDate table"
  moreover have "\<not> list_ex (\<lambda>r. c_date r = c_date row) table"
    using absent_date[OF False] by (auto simp: list_ex_iff)
  ultimately show ?thesis using False by (simp add: upsert_def onePerDate_def)
qed

lemma onePerDate_cacheQuiz:
  "onePerDate table \<Longrightarrow> onePerDate (cacheQuiz fails now date source quizData templateId table)"
  by (simp add: cacheQuiz_def onePerDate_upsert)

lemma onePerDate_deleteCache: "onePerDate table \<Longrightarrow> onePerDate (deleteCache fails date table)"
  by (simp add: deleteCache_def onePerDate_def distinct_map_filter)

lemma onePerDate_applyOp: "onePerDate table \<Longrightarrow> onePerDate (applyOp op table)"
  by (cases op) (simp_all add: onePerDate_cacheQuiz onePerDate_deleteCache)

lemma onePerDate_fold: "onePerDate table \<Longrightarrow> onePerDate (fold applyOp ops table)"
  by (induction ops arbitrary: table) (simp_all add: onePerDate_applyOp)

lemma replace_single:
  assumes "distinct (map c_date table)" "c_date row \<in> set (map c_date table)"
  shows "filter (\<lambda>r. c_date r = c_date row)
           (map (\<lambda>r. if c_date r = c_date row then row else r) table) = [row]"
  using assms
proof (induction table)
  case Nil
  then show ?case by simp
next
  case (Cons a table)
  show ?case
  proof (cases "c_date a = c_date row")
    case True
    then have nin: "c_date row \<notin> set (map c_date table)" using Cons.prems(1) by auto
    have "filter (\<lambda>r. c_date r = c_date row)
           (map (\<lambda>r. if c_date r = c_date row then row else r) table) = []"
      using absent_date[OF nin] by (auto simp: filter_empty_conv)
    then show ?thesis using True by simp
  next
    case False
    then show ?thesis using Cons by auto
  qed
qed

lemma upsert_replaces:
  assumes "onePerDate table"
  shows "filter (\<lambda>r. c_date r = c_date row) (upsert row table) = [row]"
proof (cases "c_date row \<in> set (map c_date table)")
  case True
  then have "list_ex (\<lambda>r. c_date r = c_date row) table" by (auto simp: list_ex_iff)
  then show ?thesis
    using replace_single[OF _ True] assms by (simp add: upsert_def onePerDate_def)
next
  case False
  have n: "\<not> list_ex (\<lambda>r. c_date r = c_date row) table"
    using absent_date[OF False] by (auto simp: list_ex_iff)
  have "filter (\<lambda>r. c_date r = c_date row) table = []"
    using absent_date[OF False] by (auto simp: filter_empty_conv)
  then show ?thesis using n by (simp add: upsert_def)
qed

lemma cacheQuiz_upsert:
  "cacheQuiz False now date source quizData templateId table
     = upsert (cacheRow now date source quizData templateId) table"
  by (simp add: cacheQuiz_def)

lemma upsert_length:
  "list_ex (\<lambda>x. c_date x = c_date row) table \<Longrightarrow> length (upsert row table) = length table"
  by (simp add: upsert_def)

lemma lookup_after_write:
  assumes "onePerDate table"
  shows "getCachedQuiz False now date (cacheQuiz False now date source quizData templateId table)
           = Some (cacheRow now date source quizData templateId)"
proof -
  let ?row = "cacheRow now date source quizData templateId"
  have d: "c_date ?row = date" and x: "c_expires_at ?row > now"
    by (simp_all add: cacheRow_def hours24_def)
  have one: "filter (\<lambda>r. c_date r = date) (upsert ?row table) = [?row]"
    using upsert_replaces[OF assms, of ?row] d by simp
  have "filter (\<lambda>r. c_date r = date \<and> c_expires_at r > now) (upsert ?row table)
        = filter (\<lambda>r. c_expires_at r > now) (filter (\<lambda>r. c_date r = date) (upsert ?row table))"
    by (auto simp: filter_filter intro: filter_cong)
  also have "\<dots> = [?row]" unfolding one using x by simp
  finally show ?thesis by (simp add: getCachedQuiz_def cacheQuiz_upsert single_def)
qed

text \<open>
  C8. A lookup returns only an entry of the requested date whose expiry is strictly after
  the current time. Every sequence of reads, writes and deletions that starts from the empty
  table leaves at most one entry per date, and each operation preserves that. When the
  entries of a date have expired, the lookup misses and the handler goes on past the cache;
  the write that follows leaves exactly one entry for the date, the new one, in place of the
  old one, and the next lookup returns it.
\<close>

theorem cache_one_entry_per_date:
  "(getCachedQuiz fails now date table = Some r \<longrightarrow>
      r \<in> set table \<and> c_date r = date \<and> now < c_expires_at r)
   \<and> onePerDate (fold applyOp ops [])
   \<and> (onePerDate old \<longrightarrow> onePerDate (applyOp op old))
   \<and> (onePerDate old \<and> (\<forall>x \<in> set old. c_date x = day \<longrightarrow> c_expires_at x \<le> t) \<longrightarrow>
        getCachedQuiz fails2 t day old = None
        \<and> (today rq = day \<and> clock rq = t \<and> cached_daily_quizzes db = old \<longrightarrow>
             cacheStage gf rq db = None)
        \<and> filter (\<lambda>x. c_date x = day)
             (cacheQuiz False t day source quizData templateId old)
            = [cacheRow t day source quizData templateId]
        \<and> (list_ex (\<lambda>x. c_date x = day) old \<longrightarrow>
             length (cacheQuiz False t day source quizData templateId old) = length old)
        \<and> getCachedQuiz False t day (cacheQuiz False t day source quizData templateId old)
            = Some (cacheRow t day source quizData templateId))"
proof -
  have a: "getCachedQuiz fails now date table = Some r \<longrightarrow>
      r \<in> set table \<and> c_date r = date \<and> now < c_expires_at r"
    using getCachedQuiz_fresh by blast
  have b: "onePerDate (fold applyOp ops [])"
    by (rule onePerDate_fold) (simp add: onePerDate_def)
  have c: "onePerDate old \<longrightarrow> onePerDate (applyOp op old)"
    using onePerDate_applyOp by blast
  have d: "onePerDate old \<and> (\<forall>x \<in> set old. c_date x = day \<longrightarrow> c_expires_at x \<le> t) \<longrightarrow>
        getCachedQuiz fails2 t day old = None
        \<and> (today rq = day \<and> clock rq = t \<and> cached_daily_quizzes db = old \<longrightarrow>
             cacheStage gf rq db = None)
        \<and> filter (\<lambda>x. c_date x = day)
             (cacheQuiz False t day source quizData templateId old)
            = [cacheRow t day source quizData templateId]
        \<and> (list_ex (\<lambda>x. c_date x = day) old \<longrightarrow>
             length (cacheQuiz False t day source quizData templateId old) = length old)
        \<and> getCachedQuiz False t day (cacheQuiz False t day source quizData templateId old)
            = Some (cacheRow t day source quizData templateId)"
  proof
    assume h: "onePerDate old \<and> (\<forall>x \<in> set old. c_date x = day \<longrightarrow> c_expires_at x \<le> t)"
    then have one: "onePerDate old"
      and ex: "\<forall>x \<in> set old. c_date x = day \<longrightarrow> c_expires_at x \<le> t" by blast+
    have 1: "getCachedQuiz fails2 t day old = None"
      using getCachedQuiz_expired[OF ex] .
    have 2: "today rq = day \<and> clock rq = t \<and> cached_daily_quizzes db = old \<longrightarrow>
             cacheStage gf rq db = None"
      using getCachedQuiz_expired[OF ex, of "cache_read_fails gf"]
      by (auto simp: cacheStage_def)
    have dr: "c_date (cacheRow t day source quizData templateId) = day"
      by (simp add: cacheRow_def)
    have 3: "filter (\<lambda>x. c_date x = day)
             (cacheQuiz False t day source quizData templateId old)
            = [cacheRow t day source quizData templateId]"
      using upsert_replaces[OF one, of "cacheRow t day source quizData templateId"]
      unfolding cacheQuiz_upsert dr .
    have 4: "list_ex (\<lambda>x. c_date x = day) old \<longrightarrow>
             length (cacheQuiz False t day source quizData templateId old) = length old"
      using upsert_length[of "cacheRow t day source quizData templateId" old]
      unfolding cacheQuiz_upsert dr by blast
    have 5: "getCachedQuiz False t day (cacheQuiz False t day source quizData templateId old)
            = Some (cacheRow t day source quizData templateId)"
      using lookup_after_write[OF one] .
    from 1 2 3 4 5 show "getCachedQuiz fails2 t day old = None
        \<and> (today rq = day \<and> clock rq = t \<and> cached_daily_quizzes db = old \<longrightarrow>
             cacheStage gf rq db = None)
        \<and> filter (\<lambda>x. c_date x = day)
             (cacheQuiz False t day source quizData templateId old)
            = [cacheRow t day source quizData templateId]
        \<and> (list_ex (\<lambda>x. c_date x = day) old \<longrightarrow>
             length (cacheQuiz False t day source quizData templateId old) = length old)
        \<and> getCachedQuiz False t day (cacheQuiz False t day source quizData templateId old)
            = Some (cacheRow t day source quizData templateId)" by blast
  qed
  from a b c d show ?thesis by blast
qed

theorem cache_one_entry_per_date_witness:
  "getCachedQuiz False 1000 ''2025-10-28'' [staleRow] = Some staleRow
   \<and> 1000 < c_expires_at staleRow
   \<and> onePerDate [staleRow]
   \<and> c_expires_at staleRow \<le> hours24 + 5
   \<and> list_ex (\<lambda>x. c_date x = ''2025-10-28'') [staleRow]
   \<and> getCachedQuiz False (hours24 + 5) ''2025-10-28'' [staleRow] = None
   \<and> cacheStage noGetFaults lateRequest expiredStore = None
   \<and> cacheQuiz False (hours24 + 5) ''2025-10-28'' Algorithmic
        (generatedPayload lateRequest (gridOf pool8) 1) None [staleRow]
      = [cacheRow (hours24 + 5) ''2025-10-28'' Algorithmic
           (generatedPayload lateRequest (gridOf pool8) 1) None]
   \<and> onePerDate (fold applyOp
        [Write False 1000 ''2025-10-28'' Algorithmic (generatedPayload testRequest (gridOf pool8) 1) None,
         Read False 2000 ''2025-10-28'',
         Write False (hours24 + 5) ''2025-10-28'' Algorithmic
           (generatedPayload lateRequest (gridOf pool8) 1) None] [])"
proof -
  let ?new = "generatedPayload lateRequest (gridOf pool8) 1"
  note t = cache_one_entry_per_date[of False 1000 "''2025-10-28''" "[staleRow]" staleRow
      "[Write False 1000 ''2025-10-28'' Algorithmic (generatedPayload testRequest (gridOf pool8) 1) None,
         Read False 2000 ''2025-10-28'',
         Write False (hours24 + 5) ''2025-10-28'' Algorithmic ?new None]"
      "[staleRow]" "Read False 0 []" "''2025-10-28''" "hours24 + 5" False lateRequest expiredStore
      noGetFaults Algorithmic ?new None]
  have hit: "getCachedQuiz False 1000 ''2025-10-28'' [staleRow] = Some staleRow"
    by (simp add: getCachedQuiz_def single_def staleRow_def cacheRow_def hours24_def)
  have one: "onePerDate [staleRow]" by (simp add: onePerDate_def)
  have ex: "\<forall>x \<in> set [staleRow]. c_date x = ''2025-10-28'' \<longrightarrow> c_expires_at x \<le> hours24 + 5"
    by (simp add: staleRow_def cacheRow_def)
  have le: "list_ex (\<lambda>x. c_date x = ''2025-10-28'') [staleRow]"
    by (simp add: staleRow_def cacheRow_def)
  have rq: "today lateRequest = ''2025-10-28'' \<and> clock lateRequest = hours24 + 5
            \<and> cached_daily_quizzes expiredStore = [staleRow]"
    by (simp add: lateRequest_def testRequest_def expiredStore_def)
  have fresh: "1000 < c_expires_at staleRow" using t hit by blast
  have miss: "getCachedQuiz False (hours24 + 5) ''2025-10-28'' [staleRow] = None"
    using t one ex by blast
  have stage: "cacheStage noGetFaults lateRequest expiredStore = None"
    using t one ex rq by blast
  have f: "filter (\<lambda>x. c_date x = ''2025-10-28'')
             (cacheQuiz False (hours24 + 5) ''2025-10-28'' Algorithmic ?new None [staleRow])
            = [cacheRow (hours24 + 5) ''2025-10-28'' Algorithmic ?new None]"
    using t one ex by blast
  have l: "length (cacheQuiz False (hours24 + 5) ''2025-10-28'' Algorithmic ?new None [staleRow])
             = length [staleRow]"
    using t one ex le by blast
  have w: "cacheQuiz False (hours24 + 5) ''2025-10-28'' Algorithmic ?new None [staleRow]
      = [cacheRow (hours24 + 5) ''2025-10-28'' Algorithmic ?new None]"
  proof -
    obtain y where y: "cacheQuiz False (hours24 + 5) ''2025-10-28'' Algorithmic ?new None [staleRow]
                         = [y]"
      using l by (cases "cacheQuiz False (hours24 + 5) ''2025-10-28'' Algorithmic ?new None [staleRow]")
        auto
    from f show ?thesis unfolding y by (simp split: if_splits)
  qed
  have seq: "onePerDate (fold applyOp
        [Write False 1000 ''2025-10-28'' Algorithmic (generatedPayload testRequest (gridOf pool8) 1) None,
         Read False 2000 ''2025-10-28'',
         Write False (hours24 + 5) ''2025-10-28'' Algorithmic ?new None] [])"
    using t by blast
  have ex': "c_expires_at staleRow \<le> hours24 + 5" by (simp add: staleRow_def cacheRow_def)
  from hit fresh one ex' le miss stage w seq show ?thesis by blast
qed

section \<open>Publishing\<close>


























lemma upsert_rows:
  "r \<in> set (upsert row table) \<Longrightarrow> r = row \<or> (r \<in> set table \<and> c_date r \<noteq> c_date row)"
  by (auto simp: upsert_def list_ex_iff split: if_splits)

lemma cacheQuiz_rows:
  "r \<in> set (cacheQuiz wfl now date source quizData templateId table) \<Longrightarrow>
     r = cacheRow now date source quizData templateId \<or> r \<in> set table"
  using upsert_rows[of r "cacheRow now date source quizData templateId" table]
  by (auto simp: cacheQuiz_def split: if_splits)

lemma cacheQuiz_other_date:
  "r \<in> set (cacheQuiz wfl now date' source quizData templateId table) \<Longrightarrow> c_date r \<noteq> date'
     \<Longrightarrow> r \<in> set table"
  using cacheQuiz_rows[of r wfl now date' source quizData templateId table]
  by (auto simp: cacheRow_def)




















end
